theory Spec2Isabelle
  imports Complex_Main "HOL-Library.Log_Nat"
begin

section \<open>Flappy: bird, pipes and the game loop\<close>

text \<open>
  The game is written in JavaScript (\<^verbatim>\<open>src/js/game.js\<close>, \<^verbatim>\<open>src/js/pipe.js\<close>, and the
  \<^verbatim>\<open>Bird\<close> class that follows the \<^verbatim>\<open>Menu\<close> class in \<^verbatim>\<open>src/js/menu.js\<close>). Each class is a
  record, each method a function from the object's state to its new state.

  Numbers: positions, sizes, speeds and the canvas dimensions are JavaScript numbers, that
  is IEEE 754 doubles. The game as a whole is modelled over exact reals (no rounding, no
  NaN, no infinity), which is what the code computes whenever its sums are exact.
  \<^verbatim>\<open>Bird.update\<close>, whose bound on the position turns on the rounding of one sum, is
  modelled a second time in double precision (\<open>Bird_update64\<close>). \<^verbatim>\<open>frameCount\<close>,
  \<^verbatim>\<open>pipeGap\<close> and \<^verbatim>\<open>score\<close> only ever hold integers and are modelled as \<open>int\<close>.
  \<^verbatim>\<open>Math.random()\<close> is a parameter \<open>r\<close> of every operation that constructs a pipe.
  The rendering context, the colours and the visibility of the DOM overlays have no effect
  on the simulation and are left out.
\<close>

subsection \<open>Bounding boxes and the intersection test\<close>

record Rect =
  rect_x :: real
  rect_y :: real
  rect_width :: real
  rect_height :: real

text \<open>\<^verbatim>\<open>Game.rectsIntersect\<close>, game.js lines 201-206.\<close>

definition rectsIntersect :: "Rect \<Rightarrow> Rect \<Rightarrow> bool" where
  "rectsIntersect rect1 rect2 =
     (rect_x rect1 < rect_x rect2 + rect_width rect2 \<and>
      rect_x rect1 + rect_width rect1 > rect_x rect2 \<and>
      rect_y rect1 < rect_y rect2 + rect_height rect2 \<and>
      rect_y rect1 + rect_height rect1 > rect_y rect2)"

subsection \<open>The bird\<close>

record Bird =
  bird_canvasWidth :: real
  bird_canvasHeight :: real
  bird_width :: real
  bird_height :: real
  bird_x :: real
  bird_y :: real
  velocity :: real
  gravity :: real
  jumpStrength :: real

text \<open>\<^verbatim>\<open>Bird.constructor\<close>, menu.js lines 98-114.\<close>

definition Bird_constructor :: "real \<Rightarrow> real \<Rightarrow> Bird" where
  "Bird_constructor cw ch =
     \<lparr>bird_canvasWidth = cw, bird_canvasHeight = ch,
      bird_width = 30, bird_height = 20,
      bird_x = 50, bird_y = ch / 2,
      velocity = 0, gravity = 0.2, jumpStrength = - 7\<rparr>"

text \<open>
  \<^verbatim>\<open>Bird.update\<close>, menu.js lines 119-134, statement by statement: gravity and position
  (lines 120-121), the floor guard (lines 124-127), then the ceiling guard (lines 130-133),
  which reads the position the floor guard may just have written. The sums are exact here;
  \<open>Bird_update64\<close> below rounds each of them as the code does.
\<close>

definition Bird_integrate :: "Bird \<Rightarrow> Bird" where
  "Bird_integrate b =
     (let b1 = b\<lparr>velocity := velocity b + gravity b\<rparr>
      in b1\<lparr>bird_y := bird_y b1 + velocity b1\<rparr>)"

definition floorFires :: "Bird \<Rightarrow> bool" where
  "floorFires b = (bird_y b + bird_height b > bird_canvasHeight b)"

definition Bird_clampFloor :: "Bird \<Rightarrow> Bird" where
  "Bird_clampFloor b =
     (if floorFires b
      then b\<lparr>bird_y := bird_canvasHeight b - bird_height b, velocity := 0\<rparr>
      else b)"

definition ceilingFires :: "Bird \<Rightarrow> bool" where
  "ceilingFires b = (bird_y b < 0)"

definition Bird_clampCeiling :: "Bird \<Rightarrow> Bird" where
  "Bird_clampCeiling b =
     (if ceilingFires b then b\<lparr>bird_y := 0, velocity := 0\<rparr> else b)"

definition Bird_update :: "Bird \<Rightarrow> Bird" where
  "Bird_update b = Bird_clampCeiling (Bird_clampFloor (Bird_integrate b))"

text \<open>
  The clamp fires in a call of \<^verbatim>\<open>update\<close> when one of the two guards is taken: the floor
  guard on the integrated position, or the ceiling guard on the position after the floor
  guard.
\<close>

definition clampFires :: "Bird \<Rightarrow> bool" where
  "clampFires b =
     (floorFires (Bird_integrate b) \<or> ceilingFires (Bird_clampFloor (Bird_integrate b)))"

text \<open>\<^verbatim>\<open>Bird.flap\<close>, \<^verbatim>\<open>Bird.reset\<close> and \<^verbatim>\<open>Bird.getBounds\<close>, menu.js lines 139-141, 161-164, 170-177.\<close>

definition flap :: "Bird \<Rightarrow> Bird" where
  "flap b = b\<lparr>velocity := jumpStrength b\<rparr>"

definition Bird_reset :: "Bird \<Rightarrow> Bird" where
  "Bird_reset b = b\<lparr>bird_y := bird_canvasHeight b / 2, velocity := 0\<rparr>"

definition Bird_getBounds :: "Bird \<Rightarrow> Rect" where
  "Bird_getBounds b =
     \<lparr>rect_x = bird_x b, rect_y = bird_y b,
      rect_width = bird_width b, rect_height = bird_height b\<rparr>"

subsection \<open>The bird in double precision\<close>

text \<open>
  JavaScript evaluates every \<^verbatim>\<open>+\<close> and \<^verbatim>\<open>-\<close> of \<^verbatim>\<open>Bird.update\<close> in IEEE 754 binary64:
  the exact result is rounded to the nearest double, ties to the one with an even
  significand. \<open>fl64 x\<close> is that rounding for every real \<open>x\<close> of magnitude below
  \<open>2 ^ 1024\<close> (no overflow to infinity): \<open>binaryExponent x\<close> is the \<open>e\<close> with
  \<open>2 ^ e \<le> \<bar>x\<bar> < 2 ^ (e + 1)\<close>, the spacing of the doubles around \<open>x\<close> is
  \<open>2 ^ (e - 52)\<close> (and \<open>2 ^ (- 1074)\<close> in the subnormal range), and \<open>x\<close> is rounded to
  a multiple of that spacing.
\<close>

definition pow2 :: "int \<Rightarrow> real" where
  "pow2 k = (if 0 \<le> k then 2 ^ nat k else 1 / 2 ^ nat (- k))"

definition binaryExponent :: "real \<Rightarrow> int" where
  "binaryExponent x =
     (if 1 \<le> \<bar>x\<bar> then bitlen \<lfloor>\<bar>x\<bar>\<rfloor> - 1 else - bitlen (\<lceil>1 / \<bar>x\<bar>\<rceil> - 1))"

definition roundTiesToEven :: "real \<Rightarrow> int" where
  "roundTiesToEven m =
     (let f = \<lfloor>m\<rfloor>; d = m - of_int f
      in if d < 1/2 then f else if 1/2 < d then f + 1 else if even f then f else f + 1)"

definition fl64 :: "real \<Rightarrow> real" where
  "fl64 x =
     (if x = 0 then 0
      else let q = pow2 (max (binaryExponent x) (- 1022) - 52)
           in q * of_int (roundTiesToEven (x / q)))"

text \<open>
  \<^verbatim>\<open>Bird.update\<close>, menu.js lines 119-134, with each sum and difference rounded as the code
  rounds it. The comparisons are exact in doubles as they are in the reals.
\<close>

definition Bird_update64 :: "Bird \<Rightarrow> Bird" where
  "Bird_update64 b =
     (let b1 = b\<lparr>velocity := fl64 (velocity b + gravity b)\<rparr>;
          b2 = b1\<lparr>bird_y := fl64 (bird_y b1 + velocity b1)\<rparr>;
          b3 = (if fl64 (bird_y b2 + bird_height b2) > bird_canvasHeight b2
                then b2\<lparr>bird_y := fl64 (bird_canvasHeight b2 - bird_height b2), velocity := 0\<rparr>
                else b2);
          b4 = (if bird_y b3 < 0 then b3\<lparr>bird_y := 0, velocity := 0\<rparr> else b3)
      in b4)"

text \<open>
  A bird on a canvas 1030 high, one double above the floor position 1010, moving up at the
  speed that gravity cancels in this frame. The literal \<^verbatim>\<open>0.2\<close> of the constructor denotes
  the double nearest to \<open>1/5\<close>.
\<close>

definition tieBird :: Bird where
  "tieBird =
     (Bird_constructor 400 1030)
       \<lparr>bird_y := 1010 + 1 / 2 ^ 43, velocity := - fl64 (1/5), gravity := fl64 (1/5)\<rparr>"

subsection \<open>Pipes\<close>

record Settings =
  pipeSpeed :: real
  pipeVerticalGap :: real

text \<open>The default value of the constructor's \<^verbatim>\<open>settings\<close> parameter, pipe.js line 15.\<close>

definition defaultSettings :: Settings where
  "defaultSettings = \<lparr>pipeSpeed = 1.45, pipeVerticalGap = 250\<rparr>"

record Pipe =
  pipe_canvasWidth :: real
  pipe_canvasHeight :: real
  pipe_width :: real
  pipe_x :: real
  speed :: real
  gap :: real
  passed :: bool
  topHeight :: real
  bottomY :: real
  bottomHeight :: real

text \<open>
  \<^verbatim>\<open>Pipe.constructor\<close>, pipe.js lines 15-36. An omitted \<^verbatim>\<open>settings\<close> argument is \<open>None\<close>
  and takes the default; \<open>r\<close> is the value \<^verbatim>\<open>Math.random()\<close> returns at line 31.
\<close>

definition Pipe_constructor :: "real \<Rightarrow> real \<Rightarrow> real \<Rightarrow> Settings option \<Rightarrow> real \<Rightarrow> Pipe" where
  "Pipe_constructor cw ch x0 settings r =
     (let s = (case settings of None \<Rightarrow> defaultSettings | Some s' \<Rightarrow> s');
          th = of_int \<lfloor>r * (ch / 3 - 50)\<rfloor> + 60;
          by = th + pipeVerticalGap s
      in \<lparr>pipe_canvasWidth = cw, pipe_canvasHeight = ch,
          pipe_width = 72, pipe_x = x0,
          speed = pipeSpeed s, gap = pipeVerticalGap s,
          passed = False,
          topHeight = th, bottomY = by, bottomHeight = ch - by\<rparr>)"

text \<open>\<^verbatim>\<open>Pipe.update\<close> (lines 41-43), \<^verbatim>\<open>Pipe.isOffScreen\<close> (lines 62-64).\<close>

definition Pipe_update :: "Pipe \<Rightarrow> Pipe" where
  "Pipe_update p = p\<lparr>pipe_x := pipe_x p - speed p\<rparr>"

definition isOffScreen :: "Pipe \<Rightarrow> bool" where
  "isOffScreen p = (pipe_x p + pipe_width p < 0)"

text \<open>
  \<^verbatim>\<open>Pipe.isPassed\<close>, pipe.js lines 71-77: the returned boolean and the pipe after the call.
\<close>

definition isPassed :: "Pipe \<Rightarrow> real \<Rightarrow> bool \<times> Pipe" where
  "isPassed p birdX =
     (if \<not> passed p \<and> birdX > pipe_x p + pipe_width p
      then (True, p\<lparr>passed := True\<rparr>)
      else (False, p))"

text \<open>The two components by name: whether the call fires, and the pipe it leaves.\<close>

definition fires :: "real \<Rightarrow> Pipe \<Rightarrow> bool" where
  "fires birdX p = fst (isPassed p birdX)"

definition mark :: "real \<Rightarrow> Pipe \<Rightarrow> Pipe" where
  "mark birdX p = snd (isPassed p birdX)"

text \<open>\<^verbatim>\<open>Pipe.getBounds\<close>, pipe.js lines 83-90.\<close>

definition Pipe_getBounds :: "Pipe \<Rightarrow> Rect list" where
  "Pipe_getBounds p =
     [\<lparr>rect_x = pipe_x p, rect_y = 0,
       rect_width = pipe_width p, rect_height = topHeight p\<rparr>,
      \<lparr>rect_x = pipe_x p, rect_y = bottomY p,
       rect_width = pipe_width p, rect_height = bottomHeight p\<rparr>]"

text \<open>
  The life of one pipe as the game drives it: calls of \<^verbatim>\<open>update\<close> and of
  \<^verbatim>\<open>isPassed(birdX)\<close> in any order. \<open>Pipe_run\<close> collects what the \<^verbatim>\<open>isPassed\<close> calls
  return, in call order, and the pipe at the end.
\<close>

datatype pipe_call = CallUpdate | CallIsPassed real

fun Pipe_run :: "Pipe \<Rightarrow> pipe_call list \<Rightarrow> bool list \<times> Pipe" where
  "Pipe_run p [] = ([], p)"
| "Pipe_run p (CallUpdate # cs) = Pipe_run (Pipe_update p) cs"
| "Pipe_run p (CallIsPassed birdX # cs) =
     (let (res, p') = isPassed p birdX;
          (rs, p'') = Pipe_run p' cs
      in (res # rs, p''))"

text \<open>
  For the comparison with the specification's wording: \<open>beyond p cs\<close> lists, for every
  \<^verbatim>\<open>isPassed\<close> call of \<open>cs\<close>, whether \<open>entityX > x + width\<close> held at that call, and
  \<open>firstOnly\<close> keeps the first \<open>True\<close> of a list and clears all others.
\<close>

fun beyond :: "Pipe \<Rightarrow> pipe_call list \<Rightarrow> bool list" where
  "beyond p [] = []"
| "beyond p (CallUpdate # cs) = beyond (Pipe_update p) cs"
| "beyond p (CallIsPassed birdX # cs) = (birdX > pipe_x p + pipe_width p) # beyond p cs"

fun firstOnly :: "bool list \<Rightarrow> bool list" where
  "firstOnly [] = []"
| "firstOnly (b # bs) = (if b then True # replicate (length bs) False else False # firstOnly bs)"

subsection \<open>The game\<close>

text \<open>
  The state of \<^verbatim>\<open>Game\<close> that the simulation reads or writes (game.js lines 16-58). The
  canvas, the score display and the menu are presentation.
\<close>

record Game =
  canvasWidth :: real
  canvasHeight :: real
  bird :: Bird
  pipes :: "Pipe list"
  pipeGap :: int
  frameCount :: int
  score :: int
  isRunning :: bool
  isGameOver :: bool

text \<open>
  \<^verbatim>\<open>Game.constructor\<close>. Its arguments are \<^verbatim>\<open>canvas.width\<close> and \<^verbatim>\<open>canvas.height\<close>, which
  the DOM declares as \<^verbatim>\<open>unsigned long\<close>: natural numbers. The call of \<^verbatim>\<open>gameLoop\<close> that
  ends the constructor runs \<^verbatim>\<open>update\<close> with \<^verbatim>\<open>isRunning\<close> false, which returns at once.
\<close>

definition Game_constructor :: "nat \<Rightarrow> nat \<Rightarrow> Game" where
  "Game_constructor cw ch =
     \<lparr>canvasWidth = real cw, canvasHeight = real ch,
      bird = Bird_constructor (real cw) (real ch),
      pipes = [],
      pipeGap = 300,
      frameCount = 0,
      score = 0,
      isRunning = False,
      isGameOver = False\<rparr>"

text \<open>\<^verbatim>\<open>Game.spawnPipe\<close>, game.js lines 131-134: no \<^verbatim>\<open>settings\<close> argument is passed.\<close>

definition spawnPipe :: "real \<Rightarrow> Game \<Rightarrow> Game" where
  "spawnPipe r g =
     (let pipeX = canvasWidth g
      in g\<lparr>pipes := pipes g @ [Pipe_constructor (canvasWidth g) (canvasHeight g) pipeX None r]\<rparr>)"

text \<open>\<^verbatim>\<open>Game.startGame\<close>, game.js lines 107-126.\<close>

definition startGame :: "real \<Rightarrow> Game \<Rightarrow> Game" where
  "startGame r g =
     spawnPipe r
       (g\<lparr>bird := Bird_reset (bird g),
          pipes := [],
          score := 0,
          isRunning := True,
          isGameOver := False,
          frameCount := 0\<rparr>)"

text \<open>\<^verbatim>\<open>Game.gameOver\<close>, game.js lines 249-255.\<close>

definition gameOver :: "Game \<Rightarrow> Game" where
  "gameOver g = g\<lparr>isRunning := False, isGameOver := True\<rparr>"

text \<open>
  JavaScript's \<^verbatim>\<open>a % b\<close> on integers: \<^verbatim>\<open>NaN\<close> (here \<open>None\<close>) when \<open>b\<close> is zero, otherwise
  the remainder of the truncating division, which has the sign of \<open>a\<close>.
\<close>

definition js_rem :: "int \<Rightarrow> int \<Rightarrow> int option" where
  "js_rem a b = (if b = 0 then None else Some (sgn a * (\<bar>a\<bar> mod \<bar>b\<bar>)))"

text \<open>
  \<^verbatim>\<open>Game.update\<close>, game.js lines 139-169, in the order of its statements.
  \<open>advance\<close> is lines 143-152: the bird, the pipes, the off-screen filter, the counter.
\<close>

definition advance :: "Game \<Rightarrow> Game" where
  "advance g =
     (let g1 = g\<lparr>bird := Bird_update (bird g)\<rparr>;
          g2 = g1\<lparr>pipes := map Pipe_update (pipes g1)\<rparr>;
          g3 = g2\<lparr>pipes := filter (\<lambda>p. \<not> isOffScreen p) (pipes g2)\<rparr>
      in g3\<lparr>frameCount := frameCount g3 + 1\<rparr>)"

text \<open>Lines 153-155: the test \<^verbatim>\<open>frameCount % pipeGap === 0\<close> and the spawn it guards.\<close>

definition spawnDue :: "Game \<Rightarrow> bool" where
  "spawnDue g = (js_rem (frameCount g) (pipeGap g) = Some 0)"

definition spawnStep :: "real \<Rightarrow> Game \<Rightarrow> Game" where
  "spawnStep r g = (if spawnDue g then spawnPipe r g else g)"

text \<open>
  Lines 158-163: the scoring loop calls \<^verbatim>\<open>isPassed\<close> on every pipe, in order, and adds one
  to the score for each call that returns true.
\<close>

fun scorePipes :: "real \<Rightarrow> Pipe list \<Rightarrow> int \<Rightarrow> Pipe list \<times> int" where
  "scorePipes birdX [] sc = ([], sc)"
| "scorePipes birdX (p # ps) sc =
     (let (res, p') = isPassed p birdX;
          sc' = (if res then sc + 1 else sc);
          (ps', sc'') = scorePipes birdX ps sc'
      in (p' # ps', sc''))"

definition scoring :: "Game \<Rightarrow> Game" where
  "scoring g =
     (let (ps, sc) = scorePipes (bird_x (bird g)) (pipes g) (score g)
      in g\<lparr>pipes := ps, score := sc\<rparr>)"

text \<open>\<^verbatim>\<open>Game.checkCollisions\<close>, game.js lines 175-193.\<close>

definition checkCollisions :: "Game \<Rightarrow> bool" where
  "checkCollisions g =
     (let birdBounds = Bird_getBounds (bird g)
      in if bird_y (bird g) + bird_height (bird g) \<ge> canvasHeight g \<or> bird_y (bird g) \<le> 0
         then True
         else list_ex (\<lambda>p. list_ex (\<lambda>pipeBounds. rectsIntersect birdBounds pipeBounds)
                                (Pipe_getBounds p))
                (pipes g))"

text \<open>
  \<open>simulate\<close> is the state in which line 166 calls \<^verbatim>\<open>checkCollisions\<close>; \<open>update\<close> is the
  whole method, with the early return of line 140.
\<close>

definition simulate :: "real \<Rightarrow> Game \<Rightarrow> Game" where
  "simulate r g = scoring (spawnStep r (advance g))"

definition update :: "real \<Rightarrow> Game \<Rightarrow> Game" where
  "update r g =
     (if \<not> isRunning g \<or> isGameOver g then g
      else let g' = simulate r g
           in if checkCollisions g' then gameOver g' else g')"

subsection \<open>Events\<close>

text \<open>
  What can happen to a game: an animation frame (\<^verbatim>\<open>gameLoop\<close>, lines 238-242, whose
  \<^verbatim>\<open>render\<close> changes nothing), a key press or a click on the canvas (the listeners of
  \<^verbatim>\<open>setupInputListeners\<close>, lines 66-99), and a click on the start or the restart button
  (\<^verbatim>\<open>Menu.startGame\<close> and \<^verbatim>\<open>Menu.restartGame\<close>, menu.js lines 68-85, which both call
  \<^verbatim>\<open>Game.startGame\<close> through \<^verbatim>\<open>onStart\<close>). An event that may construct a pipe carries the
  value \<^verbatim>\<open>Math.random()\<close> would return.
\<close>

datatype keycode = Space | Enter | OtherKey

datatype event =
    Frame real
  | Keydown keycode real
  | CanvasClick
  | StartButton real
  | RestartButton real

definition Menu_startGame :: "real \<Rightarrow> Game \<Rightarrow> Game" where
  "Menu_startGame r g = startGame r g"

definition Menu_restartGame :: "real \<Rightarrow> Game \<Rightarrow> Game" where
  "Menu_restartGame r g = startGame r g"

definition onKeydown :: "keycode \<Rightarrow> real \<Rightarrow> Game \<Rightarrow> Game" where
  "onKeydown code r g =
     (if (code = Space \<or> code = Enter) \<and> (\<not> isRunning g \<or> isGameOver g)
      then (if isGameOver g then Menu_restartGame r g else Menu_startGame r g)
      else if code = Space \<and> isRunning g \<and> \<not> isGameOver g
      then g\<lparr>bird := flap (bird g)\<rparr>
      else g)"

definition onCanvasClick :: "Game \<Rightarrow> Game" where
  "onCanvasClick g =
     (if isRunning g \<and> \<not> isGameOver g then g\<lparr>bird := flap (bird g)\<rparr> else g)"

fun handle :: "Game \<Rightarrow> event \<Rightarrow> Game" where
  "handle g (Frame r) = update r g"
| "handle g (Keydown code r) = onKeydown code r g"
| "handle g CanvasClick = onCanvasClick g"
| "handle g (StartButton r) = Menu_startGame r g"
| "handle g (RestartButton r) = Menu_restartGame r g"

definition run :: "Game \<Rightarrow> event list \<Rightarrow> Game" where
  "run g evs = foldl handle g evs"

text \<open>
  An event starts a run when it calls \<^verbatim>\<open>Game.startGame\<close> in state \<open>g\<close>; the others leave
  the run that is under way (or over) in place.
\<close>

fun starts :: "Game \<Rightarrow> event \<Rightarrow> bool" where
  "starts g (Frame r) = False"
| "starts g (Keydown code r) = ((code = Space \<or> code = Enter) \<and> (\<not> isRunning g \<or> isGameOver g))"
| "starts g CanvasClick = False"
| "starts g (StartButton r) = True"
| "starts g (RestartButton r) = True"

fun isFrame :: "event \<Rightarrow> bool" where
  "isFrame (Frame r) = True"
| "isFrame e = False"

definition frames :: "event list \<Rightarrow> nat" where
  "frames evs = length (filter isFrame evs)"

text \<open>
  The specification's state \<open>Running\<close>: the complement of the early return of
  \<^verbatim>\<open>Game.update\<close>.
\<close>

definition Running :: "Game \<Rightarrow> bool" where
  "Running g = (isRunning g \<and> \<not> isGameOver g)"

text \<open>A sequence of events, from state \<open>g\<close> on, none of which starts a new run.\<close>

fun noRestart :: "Game \<Rightarrow> event list \<Rightarrow> bool" where
  "noRestart g [] = True"
| "noRestart g (e # es) = (\<not> starts g e \<and> noRestart (handle g e) es)"

text \<open>
  The pipes that the filter of line 149 drops when a frame is simulated from state \<open>g\<close>
  (the pipes as they are after line 146 has moved them), and how many pipes it drops in
  total over a sequence of events.
\<close>

definition removed :: "Game \<Rightarrow> Pipe list" where
  "removed g = filter isOffScreen (map Pipe_update (pipes g))"

fun removedCount :: "Game \<Rightarrow> event list \<Rightarrow> nat" where
  "removedCount g [] = 0"
| "removedCount g (e # es) =
     (if isFrame e \<and> Running g then length (removed g) else 0) + removedCount (handle g e) es"

text \<open>
  Two conditions on a game state that the off-screen argument rests on. \<open>placed\<close>: the
  default pipe speed is below the bird's \<open>x\<close>, and a pipe spawned at the right edge of the
  canvas is not yet behind the bird. \<open>scored\<close>: every pipe of the list is slower than the
  bird's \<open>x\<close> and, unless its \<open>passed\<close> flag is set, its right edge is not behind the
  bird, which is how the scoring loop leaves each pipe.
\<close>

definition placed :: "Game \<Rightarrow> bool" where
  "placed g =
     (pipeSpeed defaultSettings < bird_x (bird g) \<and> bird_x (bird g) \<le> canvasWidth g + 72)"

definition scored :: "Game \<Rightarrow> bool" where
  "scored g =
     list_all (\<lambda>p. speed p < bird_x (bird g) \<and>
                     (passed p \<or> bird_x (bird g) \<le> pipe_x p + pipe_width p))
       (pipes g)"

subsection \<open>A sample run\<close>

text \<open>
  A concrete game on the 400 by 700 canvas, for exercising the properties below. The first
  pipe is built with the random value \<open>1/2\<close>, which puts its gap between 151 and 401.
  \<open>cruising y v x b k sc\<close> is a Running state with the bird at height \<open>y\<close> and velocity
  \<open>v\<close>, that one pipe at \<open>x\<close> with \<open>passed = b\<close>, the frame counter \<open>k\<close> and the score
  \<open>sc\<close>. \<open>hover\<close> is a flap followed by 69 frames, which brings the bird back to the
  height it started from; \<open>sampleRun\<close> is 299 frames of such flight.
\<close>

definition cruising :: "real \<Rightarrow> real \<Rightarrow> real \<Rightarrow> bool \<Rightarrow> int \<Rightarrow> int \<Rightarrow> Game" where
  "cruising y v x b k sc =
     \<lparr>canvasWidth = 400, canvasHeight = 700,
      bird = (Bird_constructor 400 700)\<lparr>bird_y := y, velocity := v\<rparr>,
      pipes = [(Pipe_constructor 400 700 400 None (1/2))\<lparr>pipe_x := x, passed := b\<rparr>],
      pipeGap = 300, frameCount = k, score = sc, isRunning = True, isGameOver = False\<rparr>"

definition hover :: "event list" where
  "hover = CanvasClick # replicate 69 (Frame 0)"

definition sampleRun :: "event list" where
  "sampleRun = concat (replicate 4 hover) @ CanvasClick # replicate 23 (Frame 0)"

text \<open>
  The same game with any number of pipes of that shape: \<open>samplePipe (x, b)\<close> is the pipe
  at \<open>x\<close> with \<open>passed = b\<close>, \<open>flight y v xbs k sc\<close> the Running state whose pipes are
  those of the list \<open>xbs\<close>, and \<open>flightStep k xbs\<close> the positions of the pipes once a frame
  has moved them, dropped those off screen and, when the counter reaches a multiple of 300,
  added the new one. \<open>longRun\<close> continues the sample run for 27 more frames, through the
  second spawn and the first removal.
\<close>

definition samplePipe :: "real \<times> bool \<Rightarrow> Pipe" where
  "samplePipe xb = (Pipe_constructor 400 700 400 None (1/2))\<lparr>pipe_x := fst xb, passed := snd xb\<rparr>"

definition flight :: "real \<Rightarrow> real \<Rightarrow> (real \<times> bool) list \<Rightarrow> int \<Rightarrow> int \<Rightarrow> Game" where
  "flight y v xbs k sc =
     \<lparr>canvasWidth = 400, canvasHeight = 700,
      bird = (Bird_constructor 400 700)\<lparr>bird_y := y, velocity := v\<rparr>,
      pipes = map samplePipe xbs,
      pipeGap = 300, frameCount = k, score = sc, isRunning = True, isGameOver = False\<rparr>"

definition flightStep :: "int \<Rightarrow> (real \<times> bool) list \<Rightarrow> (real \<times> bool) list" where
  "flightStep k xbs =
     (let moved = filter (\<lambda>xb. 0 \<le> fst xb + 72) (map (\<lambda>xb. (fst xb - 29/20, snd xb)) xbs)
      in if (k + 1) mod 300 = 0 then moved @ [(400, False)] else moved)"

definition longRun :: "event list" where
  "longRun = sampleRun @ replicate 27 (Frame (1/2))"

section \<open>Properties\<close>

subsection \<open>The intersection test\<close>

text \<open>
  Claim C5. The rectangle intersection test is commutative: for all boxes \<open>a\<close> and \<open>b\<close>,
  \<open>rectsIntersect a b = rectsIntersect b a\<close>. Its intervals are half-open: two boxes that
  share only an edge, \<open>a.x + a.width = b.x\<close> or \<open>a.y + a.height = b.y\<close>, do not intersect,
  in either argument order. The test is a function of its two arguments alone.
\<close>

theorem rectsIntersect_commutative_half_open:
  "rectsIntersect a b = rectsIntersect b a \<and>
   (rect_x a + rect_width a = rect_x b \<longrightarrow> \<not> rectsIntersect a b \<and> \<not> rectsIntersect b a) \<and>
   (rect_y a + rect_height a = rect_y b \<longrightarrow> \<not> rectsIntersect a b \<and> \<not> rectsIntersect b a)"
  by (auto simp: rectsIntersect_def)

theorem rectsIntersect_commutative_half_open_witness:
  "rectsIntersect \<lparr>rect_x = 0, rect_y = 0, rect_width = 10, rect_height = 10\<rparr>
                  \<lparr>rect_x = 10, rect_y = 10, rect_width = 5, rect_height = 5\<rparr>
   = rectsIntersect \<lparr>rect_x = 10, rect_y = 10, rect_width = 5, rect_height = 5\<rparr>
                    \<lparr>rect_x = 0, rect_y = 0, rect_width = 10, rect_height = 10\<rparr> \<and>
   rect_x \<lparr>rect_x = 0, rect_y = 0, rect_width = 10, rect_height = 10\<rparr>
     + rect_width \<lparr>rect_x = 0, rect_y = 0, rect_width = 10, rect_height = 10\<rparr>
     = rect_x \<lparr>rect_x = 10, rect_y = 10, rect_width = 5, rect_height = 5\<rparr> \<and>
   rect_y \<lparr>rect_x = 0, rect_y = 0, rect_width = 10, rect_height = 10\<rparr>
     + rect_height \<lparr>rect_x = 0, rect_y = 0, rect_width = 10, rect_height = 10\<rparr>
     = rect_y \<lparr>rect_x = 10, rect_y = 10, rect_width = 5, rect_height = 5\<rparr> \<and>
   \<not> rectsIntersect \<lparr>rect_x = 0, rect_y = 0, rect_width = 10, rect_height = 10\<rparr>
                    \<lparr>rect_x = 10, rect_y = 10, rect_width = 5, rect_height = 5\<rparr>"
  using rectsIntersect_commutative_half_open
    [of "\<lparr>rect_x = 0, rect_y = 0, rect_width = 10, rect_height = 10\<rparr>"
        "\<lparr>rect_x = 10, rect_y = 10, rect_width = 5, rect_height = 5\<rparr>"]
  by simp

subsection \<open>The bird\<close>

text \<open>
  Claim C9. Whatever the velocity was, \<^verbatim>\<open>flap()\<close> sets it to the bird's \<^verbatim>\<open>jumpStrength\<close>
  (\<open>-7\<close> for a constructed bird): the result does not depend on the prior velocity, so
  nothing is added to it. No other field of the bird changes.
\<close>

theorem flap_overwrites_velocity:
  "velocity (flap b) = jumpStrength b \<and>
   flap (b\<lparr>velocity := v\<rparr>) = flap b \<and>
   velocity (flap ((Bird_constructor cw ch)\<lparr>velocity := v\<rparr>)) = - 7 \<and>
   bird_x (flap b) = bird_x b \<and> bird_y (flap b) = bird_y b \<and>
   bird_width (flap b) = bird_width b \<and> bird_height (flap b) = bird_height b \<and>
   gravity (flap b) = gravity b \<and> jumpStrength (flap b) = jumpStrength b \<and>
   bird_canvasWidth (flap b) = bird_canvasWidth b \<and>
   bird_canvasHeight (flap b) = bird_canvasHeight b"
  by (simp add: flap_def Bird_constructor_def)

text \<open>
  Claim C7. A bird at exactly \<open>y = 0\<close> with velocity \<open>0\<close>, gravity \<open>g > 0\<close> and
  \<open>0 + g + height \<le> canvasHeight\<close> is at \<open>y = g\<close> after one \<^verbatim>\<open>update()\<close>: neither
  guard is taken, since the ceiling guard tests \<open>y < 0\<close> and not \<open>y \<le> 0\<close>.
\<close>

theorem Bird_update_leaves_ceiling:
  assumes "bird_y b = 0" and "velocity b = 0" and "0 < gravity b"
    and "0 + gravity b + bird_height b \<le> bird_canvasHeight b"
  shows "bird_y (Bird_update b) = gravity b \<and> velocity (Bird_update b) = gravity b \<and>
         \<not> clampFires b"
  using assms
  by (simp add: Bird_update_def Bird_integrate_def Bird_clampFloor_def Bird_clampCeiling_def
      floorFires_def ceilingFires_def clampFires_def Let_def)

theorem Bird_update_leaves_ceiling_witness:
  "bird_y ((Bird_constructor 400 700)\<lparr>bird_y := 0\<rparr>) = 0 \<and>
   velocity ((Bird_constructor 400 700)\<lparr>bird_y := 0\<rparr>) = 0 \<and>
   0 < gravity ((Bird_constructor 400 700)\<lparr>bird_y := 0\<rparr>) \<and>
   0 + gravity ((Bird_constructor 400 700)\<lparr>bird_y := 0\<rparr>)
     + bird_height ((Bird_constructor 400 700)\<lparr>bird_y := 0\<rparr>)
     \<le> bird_canvasHeight ((Bird_constructor 400 700)\<lparr>bird_y := 0\<rparr>) \<and>
   bird_y (Bird_update ((Bird_constructor 400 700)\<lparr>bird_y := 0\<rparr>)) = 0.2"
  using Bird_update_leaves_ceiling [of "(Bird_constructor 400 700)\<lparr>bird_y := 0\<rparr>"]
  by (simp add: Bird_constructor_def)

text \<open>
  In exact arithmetic the update keeps a bird with \<open>height \<le> canvasHeight\<close> within
  \<open>0 \<le> y \<le> canvasHeight - height\<close>; whenever a guard is taken the velocity is \<open>0\<close>
  afterwards and the bird lies on the boundary it crossed, and when no guard is taken the
  update is the integration step alone.
\<close>

lemma Bird_update_within_bounds_exact:
  assumes "bird_height b \<le> bird_canvasHeight b"
  shows "0 \<le> bird_y (Bird_update b) \<and>
         bird_y (Bird_update b) \<le> bird_canvasHeight b - bird_height b \<and>
         (bird_y (Bird_integrate b) + bird_height b > bird_canvasHeight b \<or>
          bird_y (Bird_integrate b) < 0 \<longrightarrow> velocity (Bird_update b) = 0) \<and>
         (clampFires b \<longrightarrow> velocity (Bird_update b) = 0) \<and>
         (floorFires (Bird_integrate b) \<longrightarrow>
            bird_y (Bird_update b) = bird_canvasHeight b - bird_height b) \<and>
         (\<not> floorFires (Bird_integrate b) \<and> bird_y (Bird_integrate b) < 0 \<longrightarrow>
            bird_y (Bird_update b) = 0) \<and>
         (\<not> clampFires b \<longrightarrow> Bird_update b = Bird_integrate b)"
  using assms
  by (auto simp: Bird_update_def Bird_integrate_def Bird_clampFloor_def Bird_clampCeiling_def
      floorFires_def ceilingFires_def clampFires_def Let_def)

text \<open>
  The update in double precision is the exact one whenever its three sums and its one
  difference need no rounding, and then it keeps the bird within the same bounds.
\<close>

lemma fl64_zero [simp]: "fl64 0 = 0"
  by (simp add: fl64_def)

lemma Bird_update64_exact:
  assumes "fl64 (velocity b + gravity b) = velocity b + gravity b"
    and "fl64 (bird_y b + (velocity b + gravity b)) = bird_y b + (velocity b + gravity b)"
    and "fl64 (bird_y b + (velocity b + gravity b) + bird_height b)
         = bird_y b + (velocity b + gravity b) + bird_height b"
    and "fl64 (bird_canvasHeight b - bird_height b) = bird_canvasHeight b - bird_height b"
  shows "Bird_update64 b = Bird_update b"
  using assms
  by (simp add: Bird_update64_def Bird_update_def Bird_integrate_def Bird_clampFloor_def
      Bird_clampCeiling_def floorFires_def ceilingFires_def Let_def)

text \<open>The roundings that the update of \<open>tieBird\<close> performs.\<close>

lemma fl64_tie_values:
  "fl64 (8884053952430081 / 8796093022208) = 8884053952430081 / 8796093022208"
  "fl64 (9059975812874241 / 8796093022208) = 1030"
  "fl64 1010 = 1010"
  by code_simp+

text \<open>
  Claim C2. The claim: for every bird with \<open>height \<le> canvasHeight\<close>, after one
  \<^verbatim>\<open>update()\<close> the position satisfies \<open>0 \<le> y \<le> canvasHeight - height\<close>, and the velocity
  is 0 whenever a guard is taken. The code, in double precision, at \<open>tieBird\<close>
  (\<open>canvasHeight = 1030\<close>, \<open>height = 20\<close>, \<open>y = 1010 + 2 ^ (- 43)\<close>, a double, and
  \<open>velocity + gravity = 0\<close>): the position stays where it is; the guard's sum
  \<open>y + height = 1030 + 2 ^ (- 43)\<close> lies halfway between two doubles and rounds to 1030,
  which is not greater than \<open>canvasHeight\<close>, so the floor guard of line 124 is not taken
  and the update leaves \<open>y = 1010 + 2 ^ (- 43) > canvasHeight - height = 1010\<close>. In exact
  arithmetic the same guard is taken and the bird is put at 1010.
\<close>

theorem Bird_update64_rests_below_floor:
  "bird_height tieBird \<le> bird_canvasHeight tieBird \<and>
   bird_canvasHeight tieBird = 1030 \<and> bird_height tieBird = 20 \<and>
   bird_y tieBird = 1010 + 1 / 2 ^ 43 \<and>
   fl64 (bird_y tieBird) = bird_y tieBird \<and>
   fl64 (velocity tieBird + gravity tieBird) = 0 \<and>
   fl64 (bird_y tieBird + bird_height tieBird) = 1030 \<and>
   Bird_update64 tieBird = tieBird\<lparr>velocity := 0\<rparr> \<and>
   bird_y (Bird_update64 tieBird) = 1010 + 1 / 2 ^ 43 \<and>
   fl64 (bird_canvasHeight tieBird - bird_height tieBird) = 1010 \<and>
   \<not> bird_y (Bird_update64 tieBird) \<le> bird_canvasHeight tieBird - bird_height tieBird \<and>
   bird_y (Bird_update tieBird) = 1010"
proof -
  have fields: "bird_canvasHeight tieBird = 1030" "bird_height tieBird = 20"
    "bird_y tieBird = 1010 + 1 / 2 ^ 43" "velocity tieBird + gravity tieBird = 0"
    by (simp_all add: tieBird_def Bird_constructor_def)
  have upd: "Bird_update64 tieBird = tieBird\<lparr>velocity := 0\<rparr>"
    unfolding Bird_update64_def Let_def
    by (simp add: fields fl64_tie_values)
  have real: "bird_y (Bird_update tieBird) = 1010"
    by (simp add: Bird_update_def Bird_integrate_def Bird_clampFloor_def Bird_clampCeiling_def
        floorFires_def ceilingFires_def Let_def fields)
  show ?thesis
    by (simp add: upd real fields fl64_tie_values)
qed

subsection \<open>Pipes\<close>

text \<open>
  The top height of a constructed pipe: for a random value in \<open>[0, 1)\<close> and a canvas at
  least 150 high it lies between 60 and \<open>canvasHeight / 3 + 10\<close>.
\<close>

lemma topHeight_range:
  assumes "0 \<le> r" "r < 1" "150 \<le> ch"
  shows "60 \<le> topHeight (Pipe_constructor cw ch x0 settings r)"
    and "topHeight (Pipe_constructor cw ch x0 settings r) \<le> ch / 3 + 10"
proof -
  let ?w = "ch / 3 - 50"
  have w: "0 \<le> ?w" using assms by simp
  have lo: "0 \<le> r * ?w" using assms w by simp
  have hi: "r * ?w \<le> ?w" using assms w by (simp add: mult_left_le_one_le)
  have "0 \<le> \<lfloor>r * ?w\<rfloor>" using lo by simp
  then have a: "(0::real) \<le> of_int \<lfloor>r * ?w\<rfloor>" by simp
  have b: "of_int \<lfloor>r * ?w\<rfloor> \<le> ?w" using hi of_int_floor_le [of "r * ?w"] by linarith
  show "60 \<le> topHeight (Pipe_constructor cw ch x0 settings r)"
    using a by (simp add: Pipe_constructor_def Let_def)
  show "topHeight (Pipe_constructor cw ch x0 settings r) \<le> ch / 3 + 10"
    using b by (simp add: Pipe_constructor_def Let_def)
qed

text \<open>
  What the constructor does establish: the derived fields of every pipe, and a gap that
  fits when it is at most \<open>2 * canvasHeight / 3 - 10\<close> on a canvas at least 150 high.
\<close>

lemma Pipe_constructor_derived:
  "bottomY (Pipe_constructor cw ch x0 settings r)
     = topHeight (Pipe_constructor cw ch x0 settings r) + gap (Pipe_constructor cw ch x0 settings r) \<and>
   bottomHeight (Pipe_constructor cw ch x0 settings r)
     = ch - bottomY (Pipe_constructor cw ch x0 settings r) \<and>
   (0 \<le> r \<and> r < 1 \<and> 150 \<le> ch \<longrightarrow>
      60 \<le> topHeight (Pipe_constructor cw ch x0 settings r) \<and>
      topHeight (Pipe_constructor cw ch x0 settings r) \<le> ch / 3 + 10) \<and>
   (0 \<le> r \<and> r < 1 \<and> 150 \<le> ch \<and>
    gap (Pipe_constructor cw ch x0 settings r) \<le> 2 * ch / 3 - 10 \<longrightarrow>
      topHeight (Pipe_constructor cw ch x0 settings r) + gap (Pipe_constructor cw ch x0 settings r) \<le> ch \<and>
      0 \<le> bottomHeight (Pipe_constructor cw ch x0 settings r))"
proof -
  let ?p = "Pipe_constructor cw ch x0 settings r"
  have eqs: "bottomY ?p = topHeight ?p + gap ?p" "bottomHeight ?p = ch - bottomY ?p"
    by (simp_all add: Pipe_constructor_def Let_def)
  have fit: "topHeight ?p + gap ?p \<le> ch \<and> 0 \<le> bottomHeight ?p"
    if "0 \<le> r" "r < 1" "150 \<le> ch" "gap ?p \<le> 2 * ch / 3 - 10"
  proof -
    have "topHeight ?p \<le> ch / 3 + 10" using that topHeight_range(2) by blast
    then have "topHeight ?p + gap ?p \<le> ch" using that(4) by (simp add: field_simps)
    then show ?thesis using eqs by linarith
  qed
  show ?thesis using eqs topHeight_range fit by blast
qed

text \<open>
  Claim C1. The claim: for every pipe constructed, \<open>bottomY = topHeight + gap\<close>,
  \<open>bottomHeight = canvasHeight - bottomY\<close>, and the random range of \<open>topHeight\<close>
  guarantees that the gap fits, \<open>topHeight + gap \<le> canvasHeight\<close> and so
  \<open>bottomHeight \<ge> 0\<close>; the comment on line 29 of pipe.js says the same of line 31
  (\<^verbatim>\<open>ensuring gap fits\<close>). The code: the range of line 31 depends neither on
  \<^verbatim>\<open>settings.pipeVerticalGap\<close> nor on how small the canvas is. On a canvas 700 high with
  the random value 0, the gap setting 650 gives \<open>topHeight = 60\<close>,
  \<open>topHeight + gap = 710 > 700\<close> and \<open>bottomHeight = -10\<close>; with the default settings
  (gap 250) on a canvas 300 high the random value 0 gives \<open>topHeight + gap = 310 > 300\<close>
  and \<open>bottomHeight = -10\<close>.
\<close>

theorem Pipe_constructor_gap_overflow:
  "(0::real) \<le> 0 \<and> (0::real) < 1 \<and>
   topHeight (Pipe_constructor 400 700 400 (Some \<lparr>pipeSpeed = 1.45, pipeVerticalGap = 650\<rparr>) 0) = 60 \<and>
   gap (Pipe_constructor 400 700 400 (Some \<lparr>pipeSpeed = 1.45, pipeVerticalGap = 650\<rparr>) 0) = 650 \<and>
   \<not> (topHeight (Pipe_constructor 400 700 400 (Some \<lparr>pipeSpeed = 1.45, pipeVerticalGap = 650\<rparr>) 0)
        + gap (Pipe_constructor 400 700 400 (Some \<lparr>pipeSpeed = 1.45, pipeVerticalGap = 650\<rparr>) 0)
       \<le> 700) \<and>
   bottomHeight (Pipe_constructor 400 700 400 (Some \<lparr>pipeSpeed = 1.45, pipeVerticalGap = 650\<rparr>) 0) = - 10 \<and>
   topHeight (Pipe_constructor 400 300 400 None 0) = 60 \<and>
   gap (Pipe_constructor 400 300 400 None 0) = 250 \<and>
   \<not> (topHeight (Pipe_constructor 400 300 400 None 0) + gap (Pipe_constructor 400 300 400 None 0)
       \<le> 300) \<and>
   bottomHeight (Pipe_constructor 400 300 400 None 0) = - 10"
  by (simp add: Pipe_constructor_def defaultSettings_def Let_def)

text \<open>One pipe over its lifetime: \<^verbatim>\<open>isPassed\<close> and \<^verbatim>\<open>update\<close> calls in any order.\<close>

lemma Pipe_update_passed [simp]: "Pipe_update (p\<lparr>passed := c\<rparr>) = (Pipe_update p)\<lparr>passed := c\<rparr>"
  by (simp add: Pipe_update_def)

lemma passed_Pipe_update [simp]: "passed (Pipe_update p) = passed p"
  by (simp add: Pipe_update_def)

lemma beyond_passed [simp]: "beyond (p\<lparr>passed := c\<rparr>) cs = beyond p cs"
  by (induction p cs arbitrary: c rule: beyond.induct) simp_all

lemma Pipe_run_IsPassed:
  "Pipe_run p (CallIsPassed birdX # cs) =
     (fst (isPassed p birdX) # fst (Pipe_run (snd (isPassed p birdX)) cs),
      snd (Pipe_run (snd (isPassed p birdX)) cs))"
  by (simp split: prod.splits)

lemma Pipe_run_passed_results:
  "passed p \<Longrightarrow> fst (Pipe_run p cs) = replicate (length (beyond p cs)) False"
proof (induction cs arbitrary: p)
  case Nil
  then show ?case by simp
next
  case (Cons c cs)
  show ?case
  proof (cases c)
    case CallUpdate
    then show ?thesis using Cons by simp
  next
    case (CallIsPassed birdX)
    have "isPassed p birdX = (False, p)" using Cons.prems by (simp add: isPassed_def)
    then show ?thesis using Cons CallIsPassed by (simp add: Pipe_run_IsPassed del: Pipe_run.simps(3))
  qed
qed

lemma Pipe_run_fresh_results:
  "\<not> passed p \<Longrightarrow> fst (Pipe_run p cs) = firstOnly (beyond p cs)"
proof (induction cs arbitrary: p)
  case Nil
  then show ?case by simp
next
  case (Cons c cs)
  show ?case
  proof (cases c)
    case CallUpdate
    then show ?thesis using Cons by simp
  next
    case (CallIsPassed birdX)
    show ?thesis
    proof (cases "birdX > pipe_x p + pipe_width p")
      case True
      then have "isPassed p birdX = (True, p\<lparr>passed := True\<rparr>)"
        using Cons.prems by (simp add: isPassed_def)
      moreover have "fst (Pipe_run (p\<lparr>passed := True\<rparr>) cs) = replicate (length (beyond p cs)) False"
        using Pipe_run_passed_results [of "p\<lparr>passed := True\<rparr>" cs] by simp
      ultimately show ?thesis using True CallIsPassed by (simp add: Pipe_run_IsPassed del: Pipe_run.simps(3))
    next
      case False
      then have "isPassed p birdX = (False, p)" by (simp add: isPassed_def)
      then show ?thesis using False Cons CallIsPassed by (simp add: Pipe_run_IsPassed del: Pipe_run.simps(3))
    qed
  qed
qed

lemma Pipe_run_passed_after:
  "passed (snd (Pipe_run p cs)) = (passed p \<or> True \<in> set (beyond p cs))"
proof (induction cs arbitrary: p)
  case Nil
  then show ?case by simp
next
  case (Cons c cs)
  show ?case
  proof (cases c)
    case CallUpdate
    then show ?thesis using Cons by simp
  next
    case (CallIsPassed birdX)
    then show ?thesis using Cons by (auto simp: Pipe_run_IsPassed isPassed_def simp del: Pipe_run.simps(3))
  qed
qed

lemma filter_replicate_False: "filter id (replicate n False) = []"
  by (induction n) simp_all

lemma filter_firstOnly: "length (filter id (firstOnly bs)) \<le> 1"
  by (induction bs) (simp_all add: filter_replicate_False)

text \<open>
  Claim C3. For every pipe and every sequence of \<^verbatim>\<open>isPassed(entityX)\<close> calls over its
  lifetime (with \<^verbatim>\<open>update\<close> calls in between), \<^verbatim>\<open>isPassed\<close> returns true at most once. A
  call returns true exactly when \<open>passed\<close> is false and \<open>entityX > x + width\<close>, and it then
  sets \<open>passed\<close>; so on a pipe that has not been passed the calls return true on the first
  call where \<open>entityX > x + width\<close> and false on every other call, and on a pipe that has
  been passed every call returns false.
\<close>

theorem isPassed_fires_at_most_once:
  "length (filter id (fst (Pipe_run p cs))) \<le> 1 \<and>
   fst (isPassed p birdX) = (\<not> passed p \<and> birdX > pipe_x p + pipe_width p) \<and>
   snd (isPassed p birdX) = p\<lparr>passed := passed p \<or> birdX > pipe_x p + pipe_width p\<rparr> \<and>
   (\<not> passed p \<longrightarrow> fst (Pipe_run p cs) = firstOnly (beyond p cs)) \<and>
   (passed p \<longrightarrow> fst (Pipe_run p cs) = replicate (length (beyond p cs)) False) \<and>
   passed (snd (Pipe_run p cs)) = (passed p \<or> True \<in> set (beyond p cs))"
proof -
  have "length (filter id (fst (Pipe_run p cs))) \<le> 1"
  proof (cases "passed p")
    case True
    then show ?thesis by (simp add: Pipe_run_passed_results filter_replicate_False)
  next
    case False
    then show ?thesis using filter_firstOnly [of "beyond p cs"] by (simp add: Pipe_run_fresh_results)
  qed
  moreover have "fst (isPassed p birdX) = (\<not> passed p \<and> birdX > pipe_x p + pipe_width p)"
    by (simp add: isPassed_def)
  moreover have "snd (isPassed p birdX) = p\<lparr>passed := passed p \<or> birdX > pipe_x p + pipe_width p\<rparr>"
    by (auto simp: isPassed_def)
  ultimately show ?thesis
    using Pipe_run_fresh_results Pipe_run_passed_results Pipe_run_passed_after by blast
qed

theorem isPassed_fires_at_most_once_witness:
  "\<not> passed (Pipe_constructor 400 700 0 None 0) \<and>
   pipe_x (Pipe_constructor 400 700 0 None 0) = 0 \<and>
   pipe_width (Pipe_constructor 400 700 0 None 0) = 72 \<and>
   fst (Pipe_run (Pipe_constructor 400 700 0 None 0) [CallIsPassed 100, CallUpdate, CallIsPassed 150]) = [True, False] \<and>
   length (filter id (fst (Pipe_run (Pipe_constructor 400 700 0 None 0) [CallIsPassed 100, CallUpdate, CallIsPassed 150]))) \<le> 1 \<and>
   passed (snd (Pipe_run (Pipe_constructor 400 700 0 None 0) [CallIsPassed 100, CallUpdate, CallIsPassed 150]))"
  using isPassed_fires_at_most_once
    [of "Pipe_constructor 400 700 0 None 0" "[CallIsPassed 100, CallUpdate, CallIsPassed 150]" 100]
  by (simp add: Pipe_constructor_def Let_def)

subsection \<open>The game: what each step does to each field\<close>

lemma scorePipes_eq:
  "scorePipes birdX ps sc =
     (map (mark birdX) ps, sc + int (length (filter (fires birdX) ps)))"
  by (induction ps arbitrary: sc) (simp_all add: fires_def mark_def split: prod.splits)

lemma Bird_update_frame [simp]:
  "bird_x (Bird_update b) = bird_x b"
  "bird_height (Bird_update b) = bird_height b"
  "bird_width (Bird_update b) = bird_width b"
  "bird_canvasHeight (Bird_update b) = bird_canvasHeight b"
  "bird_canvasWidth (Bird_update b) = bird_canvasWidth b"
  by (simp_all add: Bird_update_def Bird_integrate_def Bird_clampFloor_def Bird_clampCeiling_def Let_def)

lemma advance_fields [simp]:
  "bird (advance g) = Bird_update (bird g)"
  "pipes (advance g) = filter (\<lambda>p. \<not> isOffScreen p) (map Pipe_update (pipes g))"
  "frameCount (advance g) = frameCount g + 1"
  "score (advance g) = score g"
  "pipeGap (advance g) = pipeGap g"
  "canvasWidth (advance g) = canvasWidth g"
  "canvasHeight (advance g) = canvasHeight g"
  "isRunning (advance g) = isRunning g"
  "isGameOver (advance g) = isGameOver g"
  by (simp_all add: advance_def Let_def)

lemma spawnPipe_fields [simp]:
  "bird (spawnPipe r g) = bird g"
  "pipes (spawnPipe r g) = pipes g @ [Pipe_constructor (canvasWidth g) (canvasHeight g) (canvasWidth g) None r]"
  "frameCount (spawnPipe r g) = frameCount g"
  "score (spawnPipe r g) = score g"
  "pipeGap (spawnPipe r g) = pipeGap g"
  "canvasWidth (spawnPipe r g) = canvasWidth g"
  "canvasHeight (spawnPipe r g) = canvasHeight g"
  "isRunning (spawnPipe r g) = isRunning g"
  "isGameOver (spawnPipe r g) = isGameOver g"
  by (simp_all add: spawnPipe_def Let_def)

lemma spawnStep_fields [simp]:
  "bird (spawnStep r g) = bird g"
  "frameCount (spawnStep r g) = frameCount g"
  "score (spawnStep r g) = score g"
  "pipeGap (spawnStep r g) = pipeGap g"
  "canvasWidth (spawnStep r g) = canvasWidth g"
  "canvasHeight (spawnStep r g) = canvasHeight g"
  "isRunning (spawnStep r g) = isRunning g"
  "isGameOver (spawnStep r g) = isGameOver g"
  by (simp_all add: spawnStep_def)

lemma scoring_fields [simp]:
  "bird (scoring g) = bird g"
  "pipes (scoring g) = map (mark (bird_x (bird g))) (pipes g)"
  "score (scoring g) = score g + int (length (filter (fires (bird_x (bird g))) (pipes g)))"
  "frameCount (scoring g) = frameCount g"
  "pipeGap (scoring g) = pipeGap g"
  "canvasWidth (scoring g) = canvasWidth g"
  "canvasHeight (scoring g) = canvasHeight g"
  "isRunning (scoring g) = isRunning g"
  "isGameOver (scoring g) = isGameOver g"
  by (simp_all add: scoring_def scorePipes_eq)

lemma simulate_fields [simp]:
  "bird (simulate r g) = Bird_update (bird g)"
  "pipes (simulate r g) = map (mark (bird_x (bird g))) (pipes (spawnStep r (advance g)))"
  "score (simulate r g) =
     score g + int (length (filter (fires (bird_x (bird g))) (pipes (spawnStep r (advance g)))))"
  "frameCount (simulate r g) = frameCount g + 1"
  "pipeGap (simulate r g) = pipeGap g"
  "canvasWidth (simulate r g) = canvasWidth g"
  "canvasHeight (simulate r g) = canvasHeight g"
  "isRunning (simulate r g) = isRunning g"
  "isGameOver (simulate r g) = isGameOver g"
  by (simp_all add: simulate_def)

lemma gameOver_fields [simp]:
  "bird (gameOver g) = bird g"
  "pipes (gameOver g) = pipes g"
  "score (gameOver g) = score g"
  "frameCount (gameOver g) = frameCount g"
  "pipeGap (gameOver g) = pipeGap g"
  "canvasWidth (gameOver g) = canvasWidth g"
  "canvasHeight (gameOver g) = canvasHeight g"
  "isRunning (gameOver g) = False"
  "isGameOver (gameOver g) = True"
  by (simp_all add: gameOver_def)

lemma startGame_fields [simp]:
  "bird (startGame r g) = Bird_reset (bird g)"
  "pipes (startGame r g) = [Pipe_constructor (canvasWidth g) (canvasHeight g) (canvasWidth g) None r]"
  "score (startGame r g) = 0"
  "frameCount (startGame r g) = 0"
  "pipeGap (startGame r g) = pipeGap g"
  "canvasWidth (startGame r g) = canvasWidth g"
  "canvasHeight (startGame r g) = canvasHeight g"
  "isRunning (startGame r g) = True"
  "isGameOver (startGame r g) = False"
  by (simp_all add: startGame_def)

lemma update_idle: "\<not> isRunning g \<or> isGameOver g \<Longrightarrow> update r g = g"
  by (simp add: update_def)

lemma update_running_fields:
  assumes "isRunning g" "\<not> isGameOver g"
  shows "bird (update r g) = bird (simulate r g)"
    and "pipes (update r g) = pipes (simulate r g)"
    and "score (update r g) = score (simulate r g)"
    and "frameCount (update r g) = frameCount (simulate r g)"
    and "pipeGap (update r g) = pipeGap g"
    and "canvasWidth (update r g) = canvasWidth g"
    and "canvasHeight (update r g) = canvasHeight g"
    and "isGameOver (update r g) = checkCollisions (simulate r g)"
    and "isRunning (update r g) = (\<not> checkCollisions (simulate r g))"
  using assms by (simp_all add: update_def Let_def)

lemma handle_cases:
  "handle g e = (if starts g e then startGame (case e of Keydown c r \<Rightarrow> r | StartButton r \<Rightarrow> r | RestartButton r \<Rightarrow> r | _ \<Rightarrow> 0) g
     else case e of Frame r \<Rightarrow> update r g
        | Keydown c r \<Rightarrow> (if c = Space \<and> isRunning g \<and> \<not> isGameOver g then g\<lparr>bird := flap (bird g)\<rparr> else g)
        | CanvasClick \<Rightarrow> (if isRunning g \<and> \<not> isGameOver g then g\<lparr>bird := flap (bird g)\<rparr> else g)
        | _ \<Rightarrow> g)"
  by (cases e) (auto simp: onKeydown_def onCanvasClick_def Menu_startGame_def Menu_restartGame_def)

lemma run_Nil [simp]: "run g [] = g" by (simp add: run_def)
lemma run_Cons [simp]: "run g (e # es) = run (handle g e) es" by (simp add: run_def)
lemma run_snoc [simp]: "run g (es @ [e]) = handle (run g es) e" by (simp add: run_def)

lemma score_update_mono: "score g \<le> score (update r g)"
  by (cases "isRunning g \<and> \<not> isGameOver g") (auto simp: update_running_fields update_idle)

lemma score_handle:
  "score (handle g e) = (if starts g e then 0 else if isFrame e then score (update (case e of Frame r \<Rightarrow> r | _ \<Rightarrow> 0) g) else score g)"
  by (cases e) (auto simp: onKeydown_def onCanvasClick_def Menu_startGame_def Menu_restartGame_def)

lemma score_reachable_nonneg: "0 \<le> score g \<Longrightarrow> 0 \<le> score (run g evs)"
proof (induction evs arbitrary: g)
  case Nil then show ?case by simp
next
  case (Cons e evs)
  have "0 \<le> score (handle g e)"
    using Cons.prems score_update_mono [of g] by (simp add: score_handle) (meson order_trans)
  then show ?case using Cons.IH by simp
qed

lemma passed_mark_count:
  "length (filter (passed \<circ> mark birdX) ps)
     = length (filter passed ps) + length (filter (fires birdX) ps)"
  by (induction ps) (auto simp: mark_def fires_def isPassed_def)


subsection \<open>The score\<close>

text \<open>
  Claim C4. The score is 0 after the constructor and immediately after \<^verbatim>\<open>startGame\<close>. It is
  a non-negative integer in every state the game can reach, and no event other than a start
  lowers it. It changes only inside a Running frame: \<^verbatim>\<open>update\<close> returns its state
  unchanged when \<open>\<not> isRunning \<or> isGameOver\<close>, and the key and click handlers that do
  not start a run leave the score as it is. In a Running frame it grows by exactly 1 for
  each pipe of the scoring loop whose \<^verbatim>\<open>isPassed\<close> call fires, and each firing call turns
  one more pipe from not passed to passed.
\<close>

theorem score_counts_passes:
  "score (Game_constructor cw ch) = 0 \<and>
   score (startGame r0 g) = 0 \<and>
   (\<not> isRunning g \<or> isGameOver g \<longrightarrow> update r g = g) \<and>
   (isRunning g \<and> \<not> isGameOver g \<longrightarrow>
      score (update r g)
        = score g + int (length (filter (fires (bird_x (bird g))) (pipes (spawnStep r (advance g))))) \<and>
      length (filter passed (pipes (update r g)))
        = length (filter passed (pipes (spawnStep r (advance g))))
          + length (filter (fires (bird_x (bird g))) (pipes (spawnStep r (advance g))))) \<and>
   score g \<le> score (update r g) \<and>
   (starts g e \<longrightarrow> score (handle g e) = 0) \<and>
   (\<not> starts g e \<and> \<not> isFrame e \<longrightarrow> score (handle g e) = score g) \<and>
   (\<not> starts g e \<longrightarrow> score g \<le> score (handle g e)) \<and>
   0 \<le> score (run (Game_constructor cw ch) evs)"
proof -
  have c0: "score (Game_constructor cw ch) = 0"
    by (simp add: Game_constructor_def)
  have tick: "score (update r g)
        = score g + int (length (filter (fires (bird_x (bird g))) (pipes (spawnStep r (advance g))))) \<and>
      length (filter passed (pipes (update r g)))
        = length (filter passed (pipes (spawnStep r (advance g))))
          + length (filter (fires (bird_x (bird g))) (pipes (spawnStep r (advance g))))"
    if "isRunning g \<and> \<not> isGameOver g"
    using that by (simp add: update_running_fields passed_mark_count)
  have mono: "score g \<le> score (handle g e)" if "\<not> starts g e"
    using that score_update_mono [of g] by (simp add: score_handle)
  have nn: "0 \<le> score (run (Game_constructor cw ch) evs)"
    using c0 by (simp add: score_reachable_nonneg)
  show ?thesis
    using c0 tick mono nn score_update_mono [of g r] update_idle [of g r]
    by (simp add: score_handle)
qed

theorem score_counts_passes_witness:
  "isRunning ((startGame 0 (Game_constructor 400 700))\<lparr>pipes := [Pipe_constructor 400 700 (- 30) None 0]\<rparr>) \<and>
   \<not> isGameOver ((startGame 0 (Game_constructor 400 700))\<lparr>pipes := [Pipe_constructor 400 700 (- 30) None 0]\<rparr>) \<and>
   \<not> starts ((startGame 0 (Game_constructor 400 700))\<lparr>pipes := [Pipe_constructor 400 700 (- 30) None 0]\<rparr>) (Frame 0) \<and>
   score ((startGame 0 (Game_constructor 400 700))\<lparr>pipes := [Pipe_constructor 400 700 (- 30) None 0]\<rparr>) = 0 \<and>
   score (update 0 ((startGame 0 (Game_constructor 400 700))\<lparr>pipes := [Pipe_constructor 400 700 (- 30) None 0]\<rparr>)) = 1 \<and>
   starts (Game_constructor 400 700) (StartButton 0) \<and>
   score (handle (Game_constructor 400 700) (StartButton 0)) = 0"
  using score_counts_passes
    [of 400 700 0 "(startGame 0 (Game_constructor 400 700))\<lparr>pipes := [Pipe_constructor 400 700 (- 30) None 0]\<rparr>" 0 "Frame 0" "[]"]
    score_counts_passes [of 400 700 0 "Game_constructor 400 700" 0 "StartButton 0" "[]"]
  by (simp add: Game_constructor_def Bird_constructor_def Pipe_constructor_def defaultSettings_def
      spawnStep_def spawnDue_def js_rem_def fires_def isPassed_def Pipe_update_def isOffScreen_def
      Bird_reset_def Let_def)

subsection \<open>The spawn cadence\<close>

lemma frames_Nil [simp]: "frames [] = 0"
  by (simp add: frames_def)

lemma frames_Cons [simp]: "frames (e # es) = (if isFrame e then 1 else 0) + frames es"
  by (simp add: frames_def)

lemma Pipe_constructor_fields [simp]:
  "pipe_x (Pipe_constructor cw ch x0 settings r) = x0"
  "pipe_width (Pipe_constructor cw ch x0 settings r) = 72"
  "passed (Pipe_constructor cw ch x0 settings r) = False"
  "speed (Pipe_constructor cw ch x0 None r) = pipeSpeed defaultSettings"
  by (simp_all add: Pipe_constructor_def Let_def)

lemma spawnDue_advance:
  assumes "pipeGap g = 300" "0 \<le> frameCount g"
  shows "spawnDue (advance g) = ((frameCount g + 1) mod 300 = 0)"
  using assms by (simp add: spawnDue_def js_rem_def)

lemma no_spawn_before_300:
  assumes "pipeGap g = 300" "0 \<le> frameCount g" "frameCount g < 299"
  shows "\<not> spawnDue (advance g)"
  using assms by (simp add: spawnDue_advance)

lemma update_early:
  assumes "pipeGap g = 300" "0 \<le> frameCount g" "frameCount g < 299" "length (pipes g) \<le> 1"
  shows "pipeGap (update r g) = 300 \<and> 0 \<le> frameCount (update r g) \<and>
         frameCount (update r g) \<le> frameCount g + 1 \<and> length (pipes (update r g)) \<le> 1"
proof (cases "isRunning g \<and> \<not> isGameOver g")
  case True
  have "spawnStep r (advance g) = advance g"
    using assms no_spawn_before_300 by (simp add: spawnStep_def)
  moreover have "length (filter ((\<lambda>p. \<not> isOffScreen p) \<circ> Pipe_update) (pipes g)) \<le> 1"
    using assms(4) by (rule order_trans [OF length_filter_le])
  ultimately show ?thesis using True assms by (simp add: update_running_fields)
next
  case False
  then show ?thesis using assms by (simp add: update_def)
qed

lemma handle_early:
  assumes "pipeGap g = 300" "0 \<le> frameCount g"
    and "frameCount g + (if isFrame e then 1 else 0) \<le> 299" "length (pipes g) \<le> 1"
  shows "pipeGap (handle g e) = 300 \<and> 0 \<le> frameCount (handle g e) \<and>
         frameCount (handle g e) \<le> frameCount g + (if isFrame e then 1 else 0) \<and>
         length (pipes (handle g e)) \<le> 1"
proof (cases "starts g e")
  case True
  then show ?thesis using assms by (simp add: handle_cases)
next
  case False
  show ?thesis
  proof (cases e)
    case (Frame r)
    then show ?thesis using assms update_early [of g r] by simp
  qed (use False assms in \<open>simp_all add: handle_cases\<close>)
qed

lemma run_early:
  assumes "pipeGap g = 300" "0 \<le> frameCount g"
    and "frameCount g + int (frames evs) \<le> 299" "length (pipes g) \<le> 1"
  shows "pipeGap (run g evs) = 300 \<and> 0 \<le> frameCount (run g evs) \<and>
         frameCount (run g evs) \<le> frameCount g + int (frames evs) \<and>
         length (pipes (run g evs)) \<le> 1"
  using assms
proof (induction evs arbitrary: g)
  case Nil
  then show ?case by simp
next
  case (Cons e evs)
  let ?d = "if isFrame e then 1 else (0::int)"
  have step: "pipeGap (handle g e) = 300 \<and> 0 \<le> frameCount (handle g e) \<and>
         frameCount (handle g e) \<le> frameCount g + ?d \<and> length (pipes (handle g e)) \<le> 1"
    using Cons.prems handle_early [of g e] by (simp split: if_splits)
  then have "frameCount (handle g e) + int (frames evs) \<le> 299"
    using Cons.prems(3) by (simp split: if_splits)
  with step have "pipeGap (run (handle g e) evs) = 300 \<and> 0 \<le> frameCount (run (handle g e) evs) \<and>
         frameCount (run (handle g e) evs) \<le> frameCount (handle g e) + int (frames evs) \<and>
         length (pipes (run (handle g e) evs)) \<le> 1"
    using Cons.IH [of "handle g e"] by blast
  then show ?case using step by (simp split: if_splits)
qed

lemma handle_stays_running:
  assumes "\<not> starts g e" "Running (handle g e)"
  shows "Running g \<and> frameCount (handle g e) = frameCount g + (if isFrame e then 1 else 0) \<and>
         pipeGap (handle g e) = pipeGap g"
proof (cases e)
  case (Frame r)
  show ?thesis
  proof (cases "isRunning g \<and> \<not> isGameOver g")
    case True
    then show ?thesis using assms Frame by (simp add: Running_def update_running_fields)
  next
    case False
    then show ?thesis using assms Frame by (simp add: Running_def update_def)
  qed
qed (use assms in \<open>auto simp: handle_cases Running_def split: if_splits\<close>)

lemma run_stays_running:
  assumes "noRestart g evs" "Running (run g evs)"
  shows "Running g \<and> frameCount (run g evs) = frameCount g + int (frames evs) \<and>
         pipeGap (run g evs) = pipeGap g"
  using assms
proof (induction evs arbitrary: g)
  case Nil
  then show ?case by simp
next
  case (Cons e evs)
  then have a: "Running (handle g e) \<and>
      frameCount (run (handle g e) evs) = frameCount (handle g e) + int (frames evs) \<and>
      pipeGap (run (handle g e) evs) = pipeGap (handle g e)"
    by simp
  then show ?case using Cons.prems handle_stays_running [of g e] by simp
qed

text \<open>What no event changes.\<close>

lemma update_constants [simp]:
  "bird_x (bird (update r g)) = bird_x (bird g)"
  "bird_height (bird (update r g)) = bird_height (bird g)"
  "bird_canvasHeight (bird (update r g)) = bird_canvasHeight (bird g)"
  "canvasWidth (update r g) = canvasWidth g"
  "canvasHeight (update r g) = canvasHeight g"
  "pipeGap (update r g) = pipeGap g"
  by (simp_all add: update_def Let_def)

lemma Bird_reset_constants [simp]:
  "bird_x (Bird_reset b) = bird_x b"
  "bird_height (Bird_reset b) = bird_height b"
  "bird_canvasHeight (Bird_reset b) = bird_canvasHeight b"
  by (simp_all add: Bird_reset_def)

lemma flap_constants [simp]:
  "bird_x (flap b) = bird_x b"
  "bird_height (flap b) = bird_height b"
  "bird_canvasHeight (flap b) = bird_canvasHeight b"
  by (simp_all add: flap_def)

lemma handle_constants [simp]:
  "bird_x (bird (handle g e)) = bird_x (bird g)"
  "bird_height (bird (handle g e)) = bird_height (bird g)"
  "bird_canvasHeight (bird (handle g e)) = bird_canvasHeight (bird g)"
  "canvasWidth (handle g e) = canvasWidth g"
  "canvasHeight (handle g e) = canvasHeight g"
  "pipeGap (handle g e) = pipeGap g"
  by (cases e; simp add: onKeydown_def onCanvasClick_def Menu_startGame_def Menu_restartGame_def)+

lemma run_constants [simp]:
  "bird_x (bird (run g evs)) = bird_x (bird g)"
  "bird_height (bird (run g evs)) = bird_height (bird g)"
  "bird_canvasHeight (bird (run g evs)) = bird_canvasHeight (bird g)"
  "canvasWidth (run g evs) = canvasWidth g"
  "canvasHeight (run g evs) = canvasHeight g"
  "pipeGap (run g evs) = pipeGap g"
  by (induction evs arbitrary: g; simp)+

text \<open>
  The sample run, frame by frame: a flap, and \<open>n \<le> 69\<close> frames of free flight after a
  flap at height 350, in closed form. The bird stays strictly between 151 and 381, inside
  the gap of the pipe, so no frame of the flight ends the run.
\<close>

lemma cruising_start: "startGame (1/2) (Game_constructor 400 700) = cruising 350 0 400 False 0 0"
  by (simp add: cruising_def startGame_def spawnPipe_def Game_constructor_def Bird_reset_def
      Bird_constructor_def Pipe_constructor_def Let_def)

lemma cruising_click: "handle (cruising y v x b k sc) CanvasClick = cruising y (- 7) x b k sc"
  by (simp add: cruising_def onCanvasClick_def flap_def Bird_constructor_def)

lemma cruising_frame:
  assumes "151 < y + (v + 1/5)" "y + (v + 1/5) < 381" "0 \<le> x - 29/20 + 72" "0 \<le> k" "k + 1 < 300"
  shows "handle (cruising y v x b k sc) (Frame r)
         = cruising (y + (v + 1/5)) (v + 1/5) (x - 29/20) (b \<or> x - 29/20 + 72 < 50) (k + 1)
             (sc + (if \<not> b \<and> x - 29/20 + 72 < 50 then 1 else 0))"
  using assms
  by (simp add: cruising_def update_def Let_def checkCollisions_def
        Bird_constructor_def Bird_update_def Bird_integrate_def Bird_clampFloor_def
        Bird_clampCeiling_def floorFires_def ceilingFires_def
        Bird_getBounds_def Pipe_getBounds_def rectsIntersect_def spawnStep_def spawnDue_def
        js_rem_def Pipe_update_def isOffScreen_def mark_def isPassed_def Pipe_constructor_def
        defaultSettings_def simulate_def advance_def scoring_def fires_def gameOver_def)


lemma cruising_cong:
  "y = y' \<Longrightarrow> v = v' \<Longrightarrow> x = x' \<Longrightarrow> b = b' \<Longrightarrow> k = k' \<Longrightarrow> sc = sc' \<Longrightarrow>
   cruising y v x b k sc = cruising y' v' x' b' k' sc'"
  by simp

lemma orbit_bounds:
  assumes "m \<le> 69"
  shows "151 < 350 - 7 * real m + real m * (real m + 1) / 10"
    and "350 - 7 * real m + real m * (real m + 1) / 10 < 381"
proof -
  have "0 \<le> (2 * real m - 69)\<^sup>2" by simp
  then have "0 \<le> 4 * (real m * real m) - 276 * real m + 4761"
    by (simp add: power2_eq_square algebra_simps)
  then show "151 < 350 - 7 * real m + real m * (real m + 1) / 10"
    by (simp add: field_simps)
  have "real m * (real m - 69) \<le> 0"
    using assms by (intro mult_nonneg_nonpos) simp_all
  then show "350 - 7 * real m + real m * (real m + 1) / 10 < 381"
    by (simp add: field_simps)
qed

lemma cruise:
  assumes "n \<le> 69" "0 \<le> k" "k + int n < 300" "0 \<le> x - 29/20 * real n + 72"
    and "b \<or> 50 \<le> x + 72"
  shows "run (cruising 350 (- 7) x b k sc) (replicate n (Frame r))
         = cruising (350 - 7 * real n + real n * (real n + 1) / 10) (- 7 + real n / 5)
             (x - 29/20 * real n) (b \<or> x - 29/20 * real n + 72 < 50) (k + int n)
             (sc + (if \<not> b \<and> x - 29/20 * real n + 72 < 50 then 1 else 0))"
  using assms
proof (induction n)
  case 0
  then show ?case by auto
next
  case (Suc n)
  let ?y = "350 - 7 * real n + real n * (real n + 1) / 10"
  let ?v = "- 7 + real n / 5"
  let ?x = "x - 29/20 * real n"
  let ?b = "b \<or> ?x + 72 < 50"
  let ?sc = "sc + (if \<not> b \<and> ?x + 72 < 50 then 1 else 0)"
  have ih: "run (cruising 350 (- 7) x b k sc) (replicate n (Frame r))
      = cruising ?y ?v ?x ?b (k + int n) ?sc"
  proof (rule Suc.IH)
    show "n \<le> 69" "0 \<le> k" "k + int n < 300" "b \<or> 50 \<le> x + 72"
      using Suc.prems by simp_all
    show "0 \<le> x - 29/20 * real n + 72"
      using Suc.prems(4) by (simp add: field_simps)
  qed
  have y': "?y + (?v + 1/5) = 350 - 7 * real (Suc n) + real (Suc n) * (real (Suc n) + 1) / 10"
    by (simp add: field_simps)
  have v': "?v + 1/5 = - 7 + real (Suc n) / 5"
    by (simp add: field_simps)
  have x': "?x - 29/20 = x - 29/20 * real (Suc n)"
    by (simp add: field_simps)
  have bnd: "151 < ?y + (?v + 1/5)" "?y + (?v + 1/5) < 381"
    unfolding y' using orbit_bounds [of "Suc n"] Suc.prems(1) by blast+
  have off: "0 \<le> ?x - 29/20 + 72"
    unfolding x' using Suc.prems(4) by simp
  have k: "0 \<le> k + int n" "k + int n + 1 < 300"
    using Suc.prems by simp_all
  have k': "k + int n + 1 = k + int (Suc n)"
    by simp
  have b': "(?b \<or> ?x - 29/20 + 72 < 50) = (b \<or> x - 29/20 * real (Suc n) + 72 < 50)"
    by (auto simp: field_simps)
  have sc': "?sc + (if \<not> ?b \<and> ?x - 29/20 + 72 < 50 then 1 else 0)
      = sc + (if \<not> b \<and> x - 29/20 * real (Suc n) + 72 < 50 then 1 else 0)"
    by (auto simp: field_simps)
  have "replicate (Suc n) (Frame r) = replicate n (Frame r) @ [Frame r]"
    by (simp add: replicate_append_same)
  then have "run (cruising 350 (- 7) x b k sc) (replicate (Suc n) (Frame r))
      = handle (run (cruising 350 (- 7) x b k sc) (replicate n (Frame r))) (Frame r)"
    by (simp only: run_snoc)
  also have "\<dots> = handle (cruising ?y ?v ?x ?b (k + int n) ?sc) (Frame r)"
    by (simp only: ih)
  also have "\<dots> = cruising (?y + (?v + 1/5)) (?v + 1/5) (?x - 29/20) (?b \<or> ?x - 29/20 + 72 < 50)
      (k + int n + 1) (?sc + (if \<not> ?b \<and> ?x - 29/20 + 72 < 50 then 1 else 0))"
    using bnd off k by (rule cruising_frame)
  also have "\<dots> = cruising (350 - 7 * real (Suc n) + real (Suc n) * (real (Suc n) + 1) / 10)
      (- 7 + real (Suc n) / 5) (x - 29/20 * real (Suc n))
      (b \<or> x - 29/20 * real (Suc n) + 72 < 50) (k + int (Suc n))
      (sc + (if \<not> b \<and> x - 29/20 * real (Suc n) + 72 < 50 then 1 else 0))"
    by (rule cruising_cong [OF y' v' x' b' k' sc'])
  finally show ?case .
qed


lemma run_append: "run g (xs @ ys) = run (run g xs) ys"
  by (simp add: run_def)

lemma hover_period:
  assumes "0 \<le> k" "k + 69 < 300" "0 \<le> x - 2001/20 + 72" "b \<or> 50 \<le> x + 72"
  shows "run (cruising 350 v x b k sc) hover
         = cruising 350 (34/5) (x - 2001/20) (b \<or> x - 2001/20 + 72 < 50) (k + 69)
             (sc + (if \<not> b \<and> x - 2001/20 + 72 < 50 then 1 else 0))"
proof -
  have "run (cruising 350 v x b k sc) hover
      = run (cruising 350 (- 7) x b k sc) (replicate 69 (Frame 0))"
    by (simp only: hover_def run_Cons cruising_click)
  also have "\<dots> = cruising (350 - 7 * real 69 + real 69 * (real 69 + 1) / 10) (- 7 + real 69 / 5)
             (x - 29/20 * real 69) (b \<or> x - 29/20 * real 69 + 72 < 50) (k + int 69)
             (sc + (if \<not> b \<and> x - 29/20 * real 69 + 72 < 50 then 1 else 0))"
    using assms by (intro cruise) simp_all
  also have "\<dots> = cruising 350 (34/5) (x - 2001/20) (b \<or> x - 2001/20 + 72 < 50) (k + 69)
             (sc + (if \<not> b \<and> x - 2001/20 + 72 < 50 then 1 else 0))"
    by (intro cruising_cong) simp_all
  finally show ?thesis .
qed

lemma sampleRun_unfold:
  "sampleRun = hover @ hover @ hover @ hover @ CanvasClick # replicate 23 (Frame 0)"
proof -
  have "concat (replicate 4 hover) = hover @ hover @ hover @ hover"
    by (simp add: numeral_eq_Suc)
  then show ?thesis
    by (simp only: sampleRun_def append_assoc)
qed

lemma sampleRun_state:
  "run (startGame (1/2) (Game_constructor 400 700)) sampleRun
   = cruising (1221/5) (- (12/5)) (- (671/20)) True 299 1"
proof -
  have p1: "run (cruising 350 0 400 False 0 0) hover = cruising 350 (34/5) (5999/20) False 69 0"
    using hover_period [of 0 400 False 0 0] by simp
  have p2: "run (cruising 350 (34/5) (5999/20) False 69 0) hover
      = cruising 350 (34/5) (1999/10) False 138 0"
    using hover_period [of 69 "5999/20" False "34/5" 0] by simp
  have p3: "run (cruising 350 (34/5) (1999/10) False 138 0) hover
      = cruising 350 (34/5) (1997/20) False 207 0"
    using hover_period [of 138 "1999/10" False "34/5" 0] by simp
  have p4: "run (cruising 350 (34/5) (1997/20) False 207 0) hover
      = cruising 350 (34/5) (- (1/5)) False 276 0"
    using hover_period [of 207 "1997/20" False "34/5" 0] by simp
  have p5: "run (cruising 350 (34/5) (- (1/5)) False 276 0) (CanvasClick # replicate 23 (Frame 0))
      = cruising (1221/5) (- (12/5)) (- (671/20)) True 299 1"
  proof -
    have "run (cruising 350 (34/5) (- (1/5)) False 276 0) (CanvasClick # replicate 23 (Frame 0))
        = run (cruising 350 (- 7) (- (1/5)) False 276 0) (replicate 23 (Frame 0))"
      by (simp only: run_Cons cruising_click)
    also have "\<dots> = cruising (350 - 7 * real 23 + real 23 * (real 23 + 1) / 10) (- 7 + real 23 / 5)
        (- (1/5) - 29/20 * real 23) (False \<or> - (1/5) - 29/20 * real 23 + 72 < 50) (276 + int 23)
        (0 + (if \<not> False \<and> - (1/5) - 29/20 * real 23 + 72 < 50 then 1 else 0))"
      by (intro cruise) simp_all
    also have "\<dots> = cruising (1221/5) (- (12/5)) (- (671/20)) True 299 1"
      by (intro cruising_cong) simp_all
    finally show ?thesis .
  qed
  show ?thesis
    by (simp only: sampleRun_unfold run_append cruising_start p1 p2 p3 p4 p5)
qed

lemma frames_append: "frames (xs @ ys) = frames xs + frames ys"
  by (simp add: frames_def)

lemma frames_replicate: "frames (replicate n (Frame r)) = n"
  by (induction n) simp_all

lemma frames_sampleRun: "frames sampleRun = 299"
proof -
  have "frames hover = 69"
    by (simp add: hover_def frames_replicate)
  then show ?thesis
    by (simp add: sampleRun_unfold frames_append frames_replicate del: replicate.simps)
qed

lemma noRestart_flights:
  "\<forall>e \<in> set evs. isFrame e \<or> e = CanvasClick \<Longrightarrow> noRestart g evs"
proof (induction evs arbitrary: g)
  case Nil
  then show ?case by simp
next
  case (Cons e evs)
  then show ?case by (cases e) simp_all
qed

lemma noRestart_sampleRun: "noRestart g sampleRun"
  by (rule noRestart_flights) (auto simp: sampleRun_def hover_def)

text \<open>
  Claim C6. \<^verbatim>\<open>startGame\<close> resets \<^verbatim>\<open>frameCount\<close> to 0 and leaves exactly one pipe, at
  \<open>x = canvasWidth\<close>. With \<open>pipeGap = 300\<close> (the constructor's value), whatever events
  follow, as long as at most 299 frames have been drawn the pipe list never holds more than
  one pipe. In a run that is not restarted and is still Running, \<^verbatim>\<open>frameCount\<close> equals the
  number of frames drawn; in each of the first 299 frames the spawn test is false and the
  pipes after the frame are the survivors of the pipes before it; in the frame that brings
  the counter to 300 the test is true and a new pipe at \<open>x = canvasWidth\<close> is appended.
\<close>

theorem first_spawn_at_frame_300:
  "frameCount (startGame r0 g) = 0 \<and>
   pipes (startGame r0 g) = [Pipe_constructor (canvasWidth g) (canvasHeight g) (canvasWidth g) None r0] \<and>
   pipe_x (hd (pipes (startGame r0 g))) = canvasWidth g \<and>
   pipeGap (Game_constructor cw ch) = 300 \<and>
   (pipeGap g = 300 \<and> frames evs \<le> 299 \<longrightarrow>
      length (pipes (run (startGame r0 g) evs)) \<le> 1 \<and>
      frameCount (run (startGame r0 g) evs) \<le> int (frames evs)) \<and>
   (pipeGap g = 300 \<and> noRestart (startGame r0 g) evs \<and> Running (run (startGame r0 g) evs) \<longrightarrow>
      frameCount (run (startGame r0 g) evs) = int (frames evs)) \<and>
   (pipeGap g = 300 \<and> noRestart (startGame r0 g) evs \<and> Running (run (startGame r0 g) evs) \<and>
    frames evs < 299 \<longrightarrow>
      \<not> spawnDue (advance (run (startGame r0 g) evs)) \<and>
      pipes (update r (run (startGame r0 g) evs))
        = map (mark (bird_x (bird g))) (pipes (advance (run (startGame r0 g) evs)))) \<and>
   (pipeGap g = 300 \<and> noRestart (startGame r0 g) evs \<and> Running (run (startGame r0 g) evs) \<and>
    frames evs = 299 \<longrightarrow>
      spawnDue (advance (run (startGame r0 g) evs)) \<and>
      frameCount (update r (run (startGame r0 g) evs)) = 300 \<and>
      pipes (update r (run (startGame r0 g) evs))
        = map (mark (bird_x (bird g)))
            (pipes (advance (run (startGame r0 g) evs))
             @ [Pipe_constructor (canvasWidth g) (canvasHeight g) (canvasWidth g) None r]))"
proof -
  let ?g0 = "startGame r0 g"
  let ?s = "run ?g0 evs"
  have start: "frameCount ?g0 = 0" "pipeGap ?g0 = pipeGap g" "length (pipes ?g0) \<le> 1"
    "pipes ?g0 = [Pipe_constructor (canvasWidth g) (canvasHeight g) (canvasWidth g) None r0]"
    "pipe_x (hd (pipes ?g0)) = canvasWidth g"
    by simp_all
  have early: "length (pipes ?s) \<le> 1 \<and> frameCount ?s \<le> int (frames evs)"
    if "pipeGap g = 300" "frames evs \<le> 299"
    using that run_early [of ?g0 evs] by simp
  have exact: "frameCount ?s = int (frames evs) \<and> pipeGap ?s = 300 \<and>
      isRunning ?s \<and> \<not> isGameOver ?s"
    if "pipeGap g = 300" "noRestart ?g0 evs" "Running ?s"
    using that run_stays_running [of ?g0 evs] by (simp add: Running_def)
  have bx: "bird_x (bird ?s) = bird_x (bird g)" by simp
  have cw: "canvasWidth ?s = canvasWidth g" "canvasHeight ?s = canvasHeight g" by simp_all
  have before: "\<not> spawnDue (advance ?s) \<and>
      pipes (update r ?s) = map (mark (bird_x (bird g))) (pipes (advance ?s))"
    if "pipeGap g = 300" "noRestart ?g0 evs" "Running ?s" "frames evs < 299"
  proof -
    have "\<not> spawnDue (advance ?s)"
      using that exact no_spawn_before_300 [of ?s] by simp
    then show ?thesis
      using that exact bx by (simp add: update_running_fields spawnStep_def)
  qed
  have at300: "spawnDue (advance ?s) \<and> frameCount (update r ?s) = 300 \<and>
      pipes (update r ?s) = map (mark (bird_x (bird g)))
            (pipes (advance ?s)
             @ [Pipe_constructor (canvasWidth g) (canvasHeight g) (canvasWidth g) None r])"
    if "pipeGap g = 300" "noRestart ?g0 evs" "Running ?s" "frames evs = 299"
  proof -
    have "spawnDue (advance ?s)"
      using that exact spawnDue_advance [of ?s] by simp
    then show ?thesis
      using that exact bx cw by (simp add: update_running_fields spawnStep_def)
  qed
  have c: "pipeGap (Game_constructor cw ch) = 300"
    by (simp add: Game_constructor_def)
  show ?thesis
    using start(1,4,5) c early exact before at300 by blast
qed



theorem first_spawn_at_frame_300_witness:
  "pipeGap (Game_constructor 400 700) = 300 \<and>
   noRestart (startGame (1/2) (Game_constructor 400 700)) hover \<and>
   Running (run (startGame (1/2) (Game_constructor 400 700)) hover) \<and>
   frames hover < 299 \<and>
   frameCount (run (startGame (1/2) (Game_constructor 400 700)) hover) = 69 \<and>
   \<not> spawnDue (advance (run (startGame (1/2) (Game_constructor 400 700)) hover)) \<and>
   noRestart (startGame (1/2) (Game_constructor 400 700)) sampleRun \<and>
   Running (run (startGame (1/2) (Game_constructor 400 700)) sampleRun) \<and>
   frames sampleRun = 299 \<and>
   length (pipes (run (startGame (1/2) (Game_constructor 400 700)) sampleRun)) \<le> 1 \<and>
   frameCount (run (startGame (1/2) (Game_constructor 400 700)) sampleRun) = 299 \<and>
   spawnDue (advance (run (startGame (1/2) (Game_constructor 400 700)) sampleRun)) \<and>
   frameCount (update 0 (run (startGame (1/2) (Game_constructor 400 700)) sampleRun)) = 300 \<and>
   length (pipes (update 0 (run (startGame (1/2) (Game_constructor 400 700)) sampleRun))) = 2"
proof -
  let ?c = "Game_constructor 400 700"
  let ?g0 = "startGame (1/2) ?c"
  have gap: "pipeGap ?c = 300"
    by (simp add: Game_constructor_def)
  have h: "run ?g0 hover = cruising 350 (34/5) (5999/20) False 69 0"
    using hover_period [of 0 400 False 0 0] by (simp add: cruising_start)
  have rh: "Running (run ?g0 hover)"
    by (simp add: h cruising_def Running_def)
  have nh: "noRestart ?g0 hover"
    by (rule noRestart_flights) (auto simp: hover_def)
  have fh: "frames hover = 69"
    by (simp add: hover_def frames_replicate)
  have rs: "Running (run ?g0 sampleRun)"
    by (simp add: sampleRun_state cruising_def Running_def)
  have adv: "length (pipes (advance (run ?g0 sampleRun))) = 1"
    by (simp add: sampleRun_state cruising_def isOffScreen_def Pipe_update_def
        Pipe_constructor_def defaultSettings_def Let_def)
  have early: "frameCount (run ?g0 hover) = 69 \<and> \<not> spawnDue (advance (run ?g0 hover))"
    using first_spawn_at_frame_300 [of "1/2" ?c 400 700 hover 0] gap rh nh fh by simp
  have late: "length (pipes (run ?g0 sampleRun)) \<le> 1 \<and> frameCount (run ?g0 sampleRun) = 299 \<and>
      spawnDue (advance (run ?g0 sampleRun)) \<and> frameCount (update 0 (run ?g0 sampleRun)) = 300 \<and>
      length (pipes (update 0 (run ?g0 sampleRun))) = 2"
    using first_spawn_at_frame_300 [of "1/2" ?c 400 700 sampleRun 0] gap rs adv
      noRestart_sampleRun [of ?g0] frames_sampleRun
    by simp
  show ?thesis
    using gap rh nh fh rs noRestart_sampleRun [of ?g0] frames_sampleRun early late by simp
qed

subsection \<open>The clamp and the boundary test\<close>

lemma clamped_bird_collides:
  assumes "clampFires b"
  shows "bird_canvasHeight b \<le> bird_y (Bird_update b) + bird_height b \<or> bird_y (Bird_update b) \<le> 0"
    and "bird_y (Bird_update b) = bird_canvasHeight b - bird_height b \<or> bird_y (Bird_update b) = 0"
  using assms
  by (auto simp: clampFires_def Bird_update_def Bird_integrate_def Bird_clampFloor_def
      Bird_clampCeiling_def floorFires_def ceilingFires_def Let_def)

lemma canvasHeight_agrees:
  "bird_canvasHeight (bird (run (Game_constructor cw ch) evs)) = canvasHeight (run (Game_constructor cw ch) evs)"
  by (simp add: Game_constructor_def Bird_constructor_def)

text \<open>
  Claim C8. Whenever \<^verbatim>\<open>Bird.update\<close> clamps the bird in a Running frame, leaving
  \<open>y = canvasHeight - height\<close> or \<open>y = 0\<close>, the \<^verbatim>\<open>checkCollisions\<close> call of the same frame
  returns true and the frame ends the run. More generally the floor and ceiling test
  \<open>y + height \<ge> canvasHeight \<or> y \<le> 0\<close> holds of every bird on either boundary. The bird's
  own \<^verbatim>\<open>canvasHeight\<close> is the game's in every state the game can reach.
\<close>

theorem clamp_agrees_with_collision:
  "(bird_canvasHeight (bird g) = canvasHeight g \<and> isRunning g \<and> \<not> isGameOver g \<and>
    clampFires (bird g) \<longrightarrow>
      (bird_y (bird (simulate r g)) = canvasHeight g - bird_height (bird g) \<or>
       bird_y (bird (simulate r g)) = 0) \<and>
      checkCollisions (simulate r g) \<and>
      isGameOver (update r g) \<and> \<not> isRunning (update r g)) \<and>
   (bird_y (bird g) = canvasHeight g - bird_height (bird g) \<or> bird_y (bird g) = 0 \<longrightarrow>
      checkCollisions g) \<and>
   bird_canvasHeight (bird (run (Game_constructor cw ch) evs))
     = canvasHeight (run (Game_constructor cw ch) evs)"
proof -
  have a: "(bird_y (bird (simulate r g)) = canvasHeight g - bird_height (bird g) \<or>
       bird_y (bird (simulate r g)) = 0) \<and>
      checkCollisions (simulate r g) \<and>
      isGameOver (update r g) \<and> \<not> isRunning (update r g)"
    if h: "bird_canvasHeight (bird g) = canvasHeight g" "isRunning g" "\<not> isGameOver g"
      "clampFires (bird g)"
  proof -
    have c: "checkCollisions (simulate r g)"
      using clamped_bird_collides(1) [OF h(4)] h(1) by (auto simp: checkCollisions_def)
    show ?thesis
      using clamped_bird_collides(2) [OF h(4)] h c by (simp add: update_running_fields)
  qed
  have b: "checkCollisions g"
    if "bird_y (bird g) = canvasHeight g - bird_height (bird g) \<or> bird_y (bird g) = 0"
    using that by (auto simp: checkCollisions_def)
  show ?thesis using a b canvasHeight_agrees by blast
qed

theorem clamp_agrees_with_collision_witness:
  "bird_canvasHeight (bird ((startGame 0 (Game_constructor 400 700))
       \<lparr>bird := (Bird_constructor 400 700)\<lparr>bird_y := 678, velocity := 5\<rparr>\<rparr>))
     = canvasHeight ((startGame 0 (Game_constructor 400 700))
       \<lparr>bird := (Bird_constructor 400 700)\<lparr>bird_y := 678, velocity := 5\<rparr>\<rparr>) \<and>
   isRunning ((startGame 0 (Game_constructor 400 700))
       \<lparr>bird := (Bird_constructor 400 700)\<lparr>bird_y := 678, velocity := 5\<rparr>\<rparr>) \<and>
   \<not> isGameOver ((startGame 0 (Game_constructor 400 700))
       \<lparr>bird := (Bird_constructor 400 700)\<lparr>bird_y := 678, velocity := 5\<rparr>\<rparr>) \<and>
   clampFires (bird ((startGame 0 (Game_constructor 400 700))
       \<lparr>bird := (Bird_constructor 400 700)\<lparr>bird_y := 678, velocity := 5\<rparr>\<rparr>)) \<and>
   bird_y (bird (simulate 0 ((startGame 0 (Game_constructor 400 700))
       \<lparr>bird := (Bird_constructor 400 700)\<lparr>bird_y := 678, velocity := 5\<rparr>\<rparr>))) = 680 \<and>
   checkCollisions (simulate 0 ((startGame 0 (Game_constructor 400 700))
       \<lparr>bird := (Bird_constructor 400 700)\<lparr>bird_y := 678, velocity := 5\<rparr>\<rparr>)) \<and>
   isGameOver (update 0 ((startGame 0 (Game_constructor 400 700))
       \<lparr>bird := (Bird_constructor 400 700)\<lparr>bird_y := 678, velocity := 5\<rparr>\<rparr>))"
proof -
  let ?g = "(startGame 0 (Game_constructor 400 700))
       \<lparr>bird := (Bird_constructor 400 700)\<lparr>bird_y := 678, velocity := 5\<rparr>\<rparr>"
  have f: "clampFires (bird ?g)"
    by (simp add: clampFires_def floorFires_def Bird_integrate_def Bird_constructor_def Let_def)
  have h: "bird_canvasHeight (bird ?g) = canvasHeight ?g" "isRunning ?g" "\<not> isGameOver ?g"
    by (simp_all add: Game_constructor_def Bird_constructor_def)
  have y: "bird_y (bird (simulate 0 ?g)) = 680"
    by (simp add: Bird_update_def Bird_integrate_def Bird_clampFloor_def
      Bird_clampCeiling_def floorFires_def ceilingFires_def Let_def Bird_constructor_def)
  show ?thesis
    using clamp_agrees_with_collision [of ?g 0 400 700 "[]"] f h y by simp
qed

subsection \<open>Pipes that scroll off the screen\<close>

lemma mark_fields [simp]:
  "speed (mark birdX p) = speed p"
  "pipe_x (mark birdX p) = pipe_x p"
  "pipe_width (mark birdX p) = pipe_width p"
  "passed (mark birdX p) = (passed p \<or> birdX > pipe_x p + pipe_width p)"
  by (auto simp: mark_def isPassed_def)

lemma Pipe_update_fields [simp]:
  "speed (Pipe_update p) = speed p"
  "pipe_width (Pipe_update p) = pipe_width p"
  "pipe_x (Pipe_update p) = pipe_x p - speed p"
  by (simp_all add: Pipe_update_def)

lemma placed_handle [simp]: "placed (handle g e) = placed g"
  by (simp add: placed_def)

lemma scored_removed:
  assumes "scored g" and "p \<in> set (removed g)"
  shows "passed p"
  using assms by (auto simp: scored_def removed_def list_all_iff isOffScreen_def)

lemma update_marks_all:
  assumes "isRunning g" "\<not> isGameOver g" "p \<in> set (removed (update r g))"
    and "speed p < bird_x (bird g)"
  shows "passed p"
  using assms by (auto simp: update_running_fields removed_def isOffScreen_def)

lemma scored_startGame: "placed g \<Longrightarrow> scored (startGame r g)"
  by (simp add: placed_def scored_def)

lemma scored_update:
  assumes "placed g" "scored g"
  shows "scored (update r g)"
proof (cases "isRunning g \<and> \<not> isGameOver g")
  case True
  have "speed p < bird_x (bird g)" if "p \<in> set (pipes (spawnStep r (advance g)))" for p
    using that assms by (auto simp: spawnStep_def placed_def scored_def list_all_iff split: if_splits)
  then show ?thesis
    using True by (auto simp: scored_def list_all_iff update_running_fields)
next
  case False
  then show ?thesis using assms by (simp add: update_def)
qed

lemma scored_flap [simp]: "scored (g\<lparr>bird := flap (bird g)\<rparr>) = scored g"
  by (simp add: scored_def)

lemma scored_handle:
  assumes "placed g" "scored g"
  shows "scored (handle g e)"
proof (cases "starts g e")
  case True
  then show ?thesis using assms scored_startGame by (simp add: handle_cases)
next
  case False
  then show ?thesis using assms scored_update by (cases e) (auto simp: handle_cases scored_startGame)
qed

lemma scored_run: "placed g \<Longrightarrow> scored g \<Longrightarrow> scored (run g evs)"
  by (induction evs arbitrary: g) (simp_all add: scored_handle)

lemma placed_run [simp]: "placed (run g evs) = placed g"
  by (simp add: placed_def)

lemma placed_constructor: "placed (Game_constructor cw ch)"
  by (simp add: placed_def Game_constructor_def Bird_constructor_def defaultSettings_def)

lemma scored_constructor: "scored (Game_constructor cw ch)"
  by (simp add: scored_def Game_constructor_def)

text \<open>Counting passed pipes across the filter.\<close>

lemma passed_count_filter:
  assumes "\<And>p. p \<in> set ps \<Longrightarrow> isOffScreen (Pipe_update p) \<Longrightarrow> passed p"
  shows "length (filter passed (filter (\<lambda>p. \<not> isOffScreen p) (map Pipe_update ps)))
           + length (filter isOffScreen (map Pipe_update ps))
         = length (filter passed ps)"
  using assms by (induction ps) auto

lemma passed_count_advance:
  assumes "scored g"
  shows "length (filter passed (pipes (advance g))) + length (removed g)
         = length (filter passed (pipes g))"
proof -
  have "passed p" if "p \<in> set (pipes g)" "isOffScreen (Pipe_update p)" for p
    using that scored_removed [OF assms, of "Pipe_update p"] by (simp add: removed_def)
  then show ?thesis
    using passed_count_filter [of "pipes g"] by (simp add: removed_def del: filter_filter)
qed

lemma passed_count_spawnStep:
  "length (filter passed (pipes (spawnStep r g))) = length (filter passed (pipes g))"
  by (simp add: spawnStep_def)

lemma frame_account:
  assumes "scored g" "Running g"
  shows "score (update r g) - int (length (filter passed (pipes (update r g))))
         = score g - int (length (filter passed (pipes g))) + int (length (removed g))"
proof -
  let ?L = "pipes (spawnStep r (advance g))"
  let ?bx = "bird_x (bird g)"
  have "length (filter passed (pipes (update r g)))
        = length (filter passed ?L) + length (filter (fires ?bx) ?L)"
    using assms(2) by (simp add: Running_def update_running_fields passed_mark_count)
  moreover have "score (update r g) = score g + int (length (filter (fires ?bx) ?L))"
    using assms(2) by (simp add: Running_def update_running_fields)
  moreover have "length (filter passed ?L) + length (removed g) = length (filter passed (pipes g))"
    using passed_count_advance [OF assms(1)] passed_count_spawnStep [of r "advance g"] by simp
  ultimately show ?thesis by linarith
qed

lemma handle_account:
  assumes "scored g" "\<not> starts g e"
  shows "score (handle g e) - int (length (filter passed (pipes (handle g e))))
         = score g - int (length (filter passed (pipes g)))
           + int (if isFrame e \<and> Running g then length (removed g) else 0)"
proof (cases e)
  case (Frame r)
  show ?thesis
  proof (cases "Running g")
    case True
    then show ?thesis using Frame frame_account [OF assms(1)] by simp
  next
    case False
    then show ?thesis using Frame by (auto simp: Running_def update_def)
  qed
qed (use assms in \<open>auto simp: handle_cases\<close>)

lemma run_account:
  assumes "placed g" "scored g" "noRestart g evs"
  shows "score (run g evs) - int (length (filter passed (pipes (run g evs))))
         = score g - int (length (filter passed (pipes g))) + int (removedCount g evs)"
  using assms
proof (induction evs arbitrary: g)
  case Nil
  then show ?case by simp
next
  case (Cons e evs)
  have "score (run (handle g e) evs) - int (length (filter passed (pipes (run (handle g e) evs))))
        = score (handle g e) - int (length (filter passed (pipes (handle g e))))
          + int (removedCount (handle g e) evs)"
    using Cons.prems by (intro Cons.IH) (simp_all add: scored_handle)
  then show ?case
    using handle_account [of g e] Cons.prems by simp
qed

lemma placed_startGame [simp]: "placed (startGame r g) = placed g"
  by (simp add: placed_def)

text \<open>Every pipe the game constructs moves at the default speed.\<close>

lemma default_speed_update:
  assumes "\<forall>p \<in> set (pipes g). speed p = pipeSpeed defaultSettings"
  shows "\<forall>p \<in> set (pipes (update r g)). speed p = pipeSpeed defaultSettings"
proof (cases "isRunning g \<and> \<not> isGameOver g")
  case True
  then show ?thesis
    using assms by (auto simp: update_running_fields spawnStep_def split: if_splits)
next
  case False
  then show ?thesis using assms by (simp add: update_def)
qed

lemma default_speed_handle:
  assumes "\<forall>p \<in> set (pipes g). speed p = pipeSpeed defaultSettings"
  shows "\<forall>p \<in> set (pipes (handle g e)). speed p = pipeSpeed defaultSettings"
proof (cases e)
  case (Frame r)
  then show ?thesis using default_speed_update [OF assms] by simp
qed (use assms in \<open>auto simp: handle_cases\<close>)

lemma default_speed_run:
  "\<forall>p \<in> set (pipes g). speed p = pipeSpeed defaultSettings \<Longrightarrow>
   \<forall>p \<in> set (pipes (run g evs)). speed p = pipeSpeed defaultSettings"
proof (induction evs arbitrary: g)
  case Nil
  then show ?case by simp
next
  case (Cons e evs)
  then show ?case using default_speed_handle [of g e] by simp
qed

text \<open>
  One frame of the sample game with a list of pipes, while the bird stays inside the gap.
\<close>

lemma cruising_flight: "cruising y v x b k sc = flight y v [(x, b)] k sc"
  by (simp add: cruising_def flight_def samplePipe_def)

lemma samplePipe_ops:
  "Pipe_update (samplePipe xb) = samplePipe (fst xb - 29/20, snd xb)"
  "isOffScreen (samplePipe xb) = (fst xb + 72 < 0)"
  "mark 50 (samplePipe xb) = samplePipe (fst xb, snd xb \<or> fst xb + 72 < 50)"
  "fires 50 (samplePipe xb) = (\<not> snd xb \<and> fst xb + 72 < 50)"
  "Pipe_constructor 400 700 400 None (1/2) = samplePipe (400, False)"
  by (auto simp: samplePipe_def Pipe_update_def isOffScreen_def mark_def fires_def isPassed_def
      Pipe_constructor_def defaultSettings_def Let_def)

lemma samplePipe_clear:
  assumes "151 < y" "y < 381"
  shows "\<not> list_ex (rectsIntersect (Bird_getBounds ((Bird_constructor 400 700)\<lparr>bird_y := y, velocity := v\<rparr>)))
           (Pipe_getBounds (samplePipe xb))"
  using assms
  by (simp add: samplePipe_def Pipe_getBounds_def Bird_getBounds_def rectsIntersect_def
      Bird_constructor_def Pipe_constructor_def defaultSettings_def Let_def)

lemma samplePipe_advance:
  "filter (\<lambda>p. \<not> isOffScreen p) (map Pipe_update (map samplePipe xbs))
   = map samplePipe (filter (\<lambda>xb. 0 \<le> fst xb + 72) (map (\<lambda>xb. (fst xb - 29/20, snd xb)) xbs))"
  by (induction xbs) (simp_all add: samplePipe_ops not_less)

lemma samplePipe_scoring:
  "map (mark 50) (map samplePipe xbs)
   = map samplePipe (map (\<lambda>xb. (fst xb, snd xb \<or> fst xb + 72 < 50)) xbs)"
  "length (filter (fires 50) (map samplePipe xbs))
   = length (filter (\<lambda>xb. \<not> snd xb \<and> fst xb + 72 < 50) xbs)"
  by (induction xbs) (simp_all add: samplePipe_ops)

lemma flight_frame:
  assumes "151 < y + (v + 1/5)" "y + (v + 1/5) < 381" "0 \<le> k"
  shows "update (1/2) (flight y v xbs k sc)
         = flight (y + (v + 1/5)) (v + 1/5)
             (map (\<lambda>xb. (fst xb, snd xb \<or> fst xb + 72 < 50)) (flightStep k xbs)) (k + 1)
             (sc + int (length (filter (\<lambda>xb. \<not> snd xb \<and> fst xb + 72 < 50) (flightStep k xbs))))"
proof -
  let ?g = "flight y v xbs k sc"
  let ?b' = "(Bird_constructor 400 700)\<lparr>bird_y := y + (v + 1/5), velocity := v + 1/5\<rparr>"
  have run: "isRunning ?g" "\<not> isGameOver ?g"
    by (simp_all add: flight_def)
  have bird: "Bird_update (bird ?g) = ?b'"
    using assms(1,2)
    by (simp add: flight_def Bird_update_def Bird_integrate_def Bird_clampFloor_def
        Bird_clampCeiling_def floorFires_def ceilingFires_def Bird_constructor_def Let_def)
  have adv: "pipes (advance ?g)
      = map samplePipe (filter (\<lambda>xb. 0 \<le> fst xb + 72) (map (\<lambda>xb. (fst xb - 29/20, snd xb)) xbs))"
    using samplePipe_advance [of xbs] by (simp add: flight_def del: map_map)
  have due: "spawnDue (advance ?g) = ((k + 1) mod 300 = 0)"
    using assms(3) by (simp add: spawnDue_advance flight_def)
  have sp: "pipes (spawnStep (1/2) (advance ?g)) = map samplePipe (flightStep k xbs)"
    using adv due by (simp add: spawnStep_def flightStep_def Let_def flight_def samplePipe_ops)
  have bx: "bird_x (bird ?g) = 50"
    by (simp add: flight_def Bird_constructor_def)
  have ps: "pipes (simulate (1/2) ?g)
      = map samplePipe (map (\<lambda>xb. (fst xb, snd xb \<or> fst xb + 72 < 50)) (flightStep k xbs))"
  proof -
    have "pipes (simulate (1/2) ?g) = map (mark 50) (map samplePipe (flightStep k xbs))"
      by (simp only: simulate_fields sp bx)
    then show ?thesis by (simp only: samplePipe_scoring(1))
  qed
  have sc: "score (simulate (1/2) ?g)
      = sc + int (length (filter (\<lambda>xb. \<not> snd xb \<and> fst xb + 72 < 50) (flightStep k xbs)))"
  proof -
    have "score (simulate (1/2) ?g)
        = score ?g + int (length (filter (fires 50) (map samplePipe (flightStep k xbs))))"
      by (simp only: simulate_fields sp bx)
    moreover have "score ?g = sc"
      by (simp add: flight_def)
    ultimately show ?thesis by (simp only: samplePipe_scoring(2))
  qed
  have b': "bird (simulate (1/2) ?g) = ?b'"
    by (simp only: simulate_fields bird)
  have nocol: "\<not> checkCollisions (simulate (1/2) ?g)"
  proof -
    have ch: "canvasHeight (simulate (1/2) ?g) = 700"
      by (simp add: flight_def)
    have clear: "\<not> list_ex (\<lambda>p. list_ex (rectsIntersect (Bird_getBounds ?b')) (Pipe_getBounds p))
        (map samplePipe zs)" for zs
      using samplePipe_clear [OF assms(1,2), of "v + 1/5"] by (induction zs) simp_all
    have edge: "\<not> (700 \<le> bird_y ?b' + bird_height ?b' \<or> bird_y ?b' \<le> 0)"
      using assms(1,2) by (simp add: Bird_constructor_def)
    have "checkCollisions (simulate (1/2) ?g)
        = (if 700 \<le> bird_y ?b' + bird_height ?b' \<or> bird_y ?b' \<le> 0 then True
           else list_ex (\<lambda>p. list_ex (rectsIntersect (Bird_getBounds ?b')) (Pipe_getBounds p))
             (map samplePipe (map (\<lambda>xb. (fst xb, snd xb \<or> fst xb + 72 < 50)) (flightStep k xbs))))"
      by (simp only: checkCollisions_def Let_def b' ch ps)
    then show ?thesis
      by (simp only: edge clear if_False not_False_eq_True)
  qed
  have "update (1/2) ?g = simulate (1/2) ?g"
    using run nocol by (simp add: update_def Let_def)
  moreover have "simulate (1/2) ?g
      = flight (y + (v + 1/5)) (v + 1/5)
             (map (\<lambda>xb. (fst xb, snd xb \<or> fst xb + 72 < 50)) (flightStep k xbs)) (k + 1)
             (sc + int (length (filter (\<lambda>xb. \<not> snd xb \<and> fst xb + 72 < 50) (flightStep k xbs))))"
  proof (rule Game.equality)
    show "bird (simulate (1/2) ?g)
        = bird (flight (y + (v + 1/5)) (v + 1/5)
             (map (\<lambda>xb. (fst xb, snd xb \<or> fst xb + 72 < 50)) (flightStep k xbs)) (k + 1)
             (sc + int (length (filter (\<lambda>xb. \<not> snd xb \<and> fst xb + 72 < 50) (flightStep k xbs)))))"
      by (simp only: b') (simp add: flight_def)
    show "pipes (simulate (1/2) ?g)
        = pipes (flight (y + (v + 1/5)) (v + 1/5)
             (map (\<lambda>xb. (fst xb, snd xb \<or> fst xb + 72 < 50)) (flightStep k xbs)) (k + 1)
             (sc + int (length (filter (\<lambda>xb. \<not> snd xb \<and> fst xb + 72 < 50) (flightStep k xbs)))))"
      by (simp only: ps) (simp add: flight_def)
    show "score (simulate (1/2) ?g)
        = score (flight (y + (v + 1/5)) (v + 1/5)
             (map (\<lambda>xb. (fst xb, snd xb \<or> fst xb + 72 < 50)) (flightStep k xbs)) (k + 1)
             (sc + int (length (filter (\<lambda>xb. \<not> snd xb \<and> fst xb + 72 < 50) (flightStep k xbs)))))"
      by (simp only: sc) (simp add: flight_def)
  qed (simp_all add: flight_def)
  ultimately show ?thesis by simp
qed

lemma longRun_state:
  "run (startGame (1/2) (Game_constructor 400 700)) longRun = flight 255 3 [(3623/10, False)] 326 1"
proof -
  have "run (startGame (1/2) (Game_constructor 400 700)) longRun
      = run (flight (1221/5) (- (12/5)) [(- (671/20), True)] 299 1) (replicate 27 (Frame (1/2)))"
    by (simp only: longRun_def run_append sampleRun_state cruising_flight)
  also have "\<dots> = flight 255 3 [(3623/10, False)] 326 1"
    by (simp add: numeral_eq_Suc flight_frame flightStep_def Let_def)
  finally show ?thesis .
qed

lemma noRestart_longRun: "noRestart g longRun"
  by (rule noRestart_flights) (auto simp: longRun_def sampleRun_def hover_def)

text \<open>
  Claim C10 (as amended). Every pipe that the off-screen filter removes already has
  \<open>passed\<close> set.
  In a Running frame the scoring loop leaves every pipe either passed or with its right
  edge at or beyond the bird, so a pipe slower than the bird's \<open>x\<close> that the next frame's
  filter drops is passed. This holds in every state reachable from a start in which the
  default speed is below the bird's \<open>x\<close> and the bird's \<open>x\<close> is at most
  \<open>canvasWidth + 72\<close>, and so in every state reachable from the constructor, where every
  pipe has speed 1.45 and the bird's \<open>x\<close> is 50. Hence, in a run that is not restarted, the
  score is the number of pipes removed so far plus the number of passed pipes on screen:
  each pipe that has scrolled off has contributed exactly one increment. Nothing is
  claimed of a pipe that is still on screen when the run ends or is restarted.
\<close>

theorem removed_pipes_are_passed:
  "(isRunning g \<and> \<not> isGameOver g \<longrightarrow>
      (\<forall>p \<in> set (removed (update r g)). speed p < bird_x (bird g) \<longrightarrow> passed p)) \<and>
   (pipeSpeed defaultSettings < bird_x (bird g) \<and> bird_x (bird g) \<le> canvasWidth g + 72 \<longrightarrow>
      (\<forall>p \<in> set (removed (run (startGame r0 g) evs)). passed p)) \<and>
   (pipeSpeed defaultSettings < bird_x (bird g) \<and> bird_x (bird g) \<le> canvasWidth g + 72 \<and>
    noRestart (startGame r0 g) evs \<longrightarrow>
      score (run (startGame r0 g) evs)
        = int (removedCount (startGame r0 g) evs)
          + int (length (filter passed (pipes (run (startGame r0 g) evs))))) \<and>
   (\<forall>p \<in> set (removed (run (Game_constructor cw ch) evs)). passed p) \<and>
   (\<forall>p \<in> set (pipes (run (Game_constructor cw ch) evs)). speed p = 1.45) \<and>
   bird_x (bird (run (Game_constructor cw ch) evs)) = 50"
proof -
  let ?g0 = "startGame r0 g"
  let ?c = "Game_constructor cw ch"
  have a: "\<forall>p \<in> set (removed (update r g)). speed p < bird_x (bird g) \<longrightarrow> passed p"
    if "isRunning g \<and> \<not> isGameOver g"
    using that update_marks_all [of g _ r] by blast
  have pl: "placed g"
    if "pipeSpeed defaultSettings < bird_x (bird g) \<and> bird_x (bird g) \<le> canvasWidth g + 72"
    using that by (simp add: placed_def)
  have b: "\<forall>p \<in> set (removed (run ?g0 evs)). passed p" if "placed g"
  proof -
    have "scored (run ?g0 evs)"
      using that by (simp add: scored_run scored_startGame)
    then show ?thesis using scored_removed by blast
  qed
  have c: "score (run ?g0 evs)
        = int (removedCount ?g0 evs) + int (length (filter passed (pipes (run ?g0 evs))))"
    if "placed g" "noRestart ?g0 evs"
    using that run_account [of ?g0 evs] by (simp add: scored_startGame)
  have d: "\<forall>p \<in> set (removed (run ?c evs)). passed p"
    using scored_run [OF placed_constructor scored_constructor] scored_removed by blast
  have "\<forall>p \<in> set (pipes (run ?c evs)). speed p = pipeSpeed defaultSettings"
    by (rule default_speed_run) (simp add: Game_constructor_def)
  then have e: "\<forall>p \<in> set (pipes (run ?c evs)). speed p = 1.45"
    by (simp add: defaultSettings_def)
  have f: "bird_x (bird (run ?c evs)) = 50"
    by (simp add: Game_constructor_def Bird_constructor_def)
  show ?thesis
    using a pl b c d e f by blast
qed

theorem removed_pipes_are_passed_witness:
  "isRunning ((startGame 0 (Game_constructor 400 700))\<lparr>pipes := [Pipe_constructor 400 700 (- 70) None 0]\<rparr>) \<and>
   \<not> isGameOver ((startGame 0 (Game_constructor 400 700))\<lparr>pipes := [Pipe_constructor 400 700 (- 70) None 0]\<rparr>) \<and>
   removed (update 0 ((startGame 0 (Game_constructor 400 700))\<lparr>pipes := [Pipe_constructor 400 700 (- 70) None 0]\<rparr>))
     = [(Pipe_constructor 400 700 (- 70) None 0)\<lparr>pipe_x := - 72.9, passed := True\<rparr>] \<and>
   list_all (\<lambda>p. speed p < 50 \<and> passed p)
     (removed (update 0 ((startGame 0 (Game_constructor 400 700))\<lparr>pipes := [Pipe_constructor 400 700 (- 70) None 0]\<rparr>))) \<and>
   pipeSpeed defaultSettings < bird_x (bird (Game_constructor 400 700)) \<and>
   bird_x (bird (Game_constructor 400 700)) \<le> canvasWidth (Game_constructor 400 700) + 72 \<and>
   noRestart (startGame (1/2) (Game_constructor 400 700)) longRun \<and>
   frameCount (run (startGame (1/2) (Game_constructor 400 700)) longRun) = 326 \<and>
   score (run (startGame (1/2) (Game_constructor 400 700)) longRun) = 1 \<and>
   length (filter passed (pipes (run (startGame (1/2) (Game_constructor 400 700)) longRun))) = 0 \<and>
   removedCount (startGame (1/2) (Game_constructor 400 700)) longRun = 1"
proof -
  let ?g = "(startGame 0 (Game_constructor 400 700))\<lparr>pipes := [Pipe_constructor 400 700 (- 70) None 0]\<rparr>"
  let ?c = "Game_constructor 400 700"
  let ?st = "startGame (1/2) ?c"
  have run: "isRunning ?g" "\<not> isGameOver ?g"
    by simp_all
  have rem: "removed (update 0 ?g) = [(Pipe_constructor 400 700 (- 70) None 0)\<lparr>pipe_x := - 72.9, passed := True\<rparr>]"
    by (simp add: removed_def update_def Let_def checkCollisions_def Game_constructor_def
        Bird_constructor_def Bird_reset_def Bird_update_def Bird_integrate_def Bird_clampFloor_def
        Bird_clampCeiling_def floorFires_def ceilingFires_def
        Bird_getBounds_def Pipe_getBounds_def rectsIntersect_def spawnStep_def spawnDue_def
        js_rem_def Pipe_update_def isOffScreen_def mark_def isPassed_def Pipe_constructor_def
        defaultSettings_def)
  have sp: "speed (Pipe_constructor 400 700 (- 70) None 0) < 50"
    by (simp add: defaultSettings_def)
  have first: "list_all (\<lambda>p. speed p < 50 \<and> passed p) (removed (update 0 ?g))"
    using removed_pipes_are_passed [of ?g 0 0 "[]" 400 700] run rem sp by simp
  have hyp: "pipeSpeed defaultSettings < bird_x (bird ?c)" "bird_x (bird ?c) \<le> canvasWidth ?c + 72"
    by (simp_all add: defaultSettings_def Game_constructor_def Bird_constructor_def)
  have sc: "score (run ?st longRun) = 1"
    "length (filter passed (pipes (run ?st longRun))) = 0"
    "frameCount (run ?st longRun) = 326"
    by (simp_all add: longRun_state flight_def samplePipe_def)
  have "score (run ?st longRun)
      = int (removedCount ?st longRun) + int (length (filter passed (pipes (run ?st longRun))))"
    using hyp noRestart_longRun [of ?st]
      removed_pipes_are_passed [of ?c 0 "1/2" longRun 400 700]
    by simp
  then have rc: "removedCount ?st longRun = 1"
    using sc by simp
  show ?thesis
    using run rem first hyp noRestart_longRun [of ?st] sc rc by simp
qed

text \<open>
  A run that ends before its pipe is reached: from the start the bird falls for 57 frames
  without a flap, the pipe still far to its right, and the 57th frame puts it on the floor.
\<close>

lemma cruising_fall:
  assumes "0 < y + (v + 1/5)" "y + (v + 1/5) < 680" "80 \<le> x - 29/20" "0 \<le> k" "k + 1 < 300"
  shows "update r (cruising y v x False k sc)
         = cruising (y + (v + 1/5)) (v + 1/5) (x - 29/20) False (k + 1) sc"
  using assms
  by (simp add: cruising_def update_def Let_def checkCollisions_def
        Bird_constructor_def Bird_update_def Bird_integrate_def Bird_clampFloor_def
        Bird_clampCeiling_def floorFires_def ceilingFires_def
        Bird_getBounds_def Pipe_getBounds_def rectsIntersect_def spawnStep_def spawnDue_def
        js_rem_def Pipe_update_def isOffScreen_def mark_def isPassed_def Pipe_constructor_def
        defaultSettings_def simulate_def advance_def scoring_def fires_def gameOver_def)

lemma fall_56_frames:
  "run (startGame (1/2) (Game_constructor 400 700)) (replicate 56 (Frame 0))
   = cruising (3346/5) (56/5) (1594/5) False 56 0"
  by (simp only: cruising_start) (simp add: numeral_eq_Suc cruising_fall)

lemma fall_last_frame:
  "update 0 (cruising (3346/5) (56/5) (1594/5) False 56 0)
   = gameOver ((cruising 680 0 (6347/20) False 57 0))"
  by (simp add: cruising_def update_def Let_def checkCollisions_def
        Bird_constructor_def Bird_update_def Bird_integrate_def Bird_clampFloor_def
        Bird_clampCeiling_def floorFires_def ceilingFires_def
        Bird_getBounds_def Pipe_getBounds_def rectsIntersect_def spawnStep_def spawnDue_def
        js_rem_def Pipe_update_def isOffScreen_def mark_def isPassed_def Pipe_constructor_def
        defaultSettings_def simulate_def advance_def scoring_def fires_def gameOver_def)

lemma fall_57_frames:
  "run (startGame (1/2) (Game_constructor 400 700)) (replicate 57 (Frame 0))
   = gameOver (cruising 680 0 (6347/20) False 57 0)"
  by (simp only: cruising_start) (simp add: numeral_eq_Suc cruising_fall fall_last_frame)

text \<open>
  The claim as first stated ends with: every spawned pipe contributes exactly one score
  increment during its lifetime. The pipe that \<^verbatim>\<open>startGame\<close> spawns contributes none in
  this run: after 57 frames without a flap the run is over with score 0 and the pipe at
  \<open>x = 317.35\<close>, not passed; further frames change nothing, and the restart replaces the
  pipe list, so the pipe is gone with the score still 0.
\<close>

theorem unpassed_pipe_dropped_by_restart:
  "pipes (startGame (1/2) (Game_constructor 400 700))
     = [Pipe_constructor 400 700 400 None (1/2)] \<and>
   noRestart (startGame (1/2) (Game_constructor 400 700)) (replicate 57 (Frame 0)) \<and>
   isGameOver (run (startGame (1/2) (Game_constructor 400 700)) (replicate 57 (Frame 0))) \<and>
   score (run (startGame (1/2) (Game_constructor 400 700)) (replicate 57 (Frame 0))) = 0 \<and>
   pipes (run (startGame (1/2) (Game_constructor 400 700)) (replicate 57 (Frame 0)))
     = [(Pipe_constructor 400 700 400 None (1/2))\<lparr>pipe_x := 6347/20\<rparr>] \<and>
   \<not> passed ((Pipe_constructor 400 700 400 None (1/2))\<lparr>pipe_x := 6347/20\<rparr>) \<and>
   update 0 (run (startGame (1/2) (Game_constructor 400 700)) (replicate 57 (Frame 0)))
     = run (startGame (1/2) (Game_constructor 400 700)) (replicate 57 (Frame 0)) \<and>
   starts (run (startGame (1/2) (Game_constructor 400 700)) (replicate 57 (Frame 0))) (RestartButton 0) \<and>
   score (run (startGame (1/2) (Game_constructor 400 700)) (replicate 57 (Frame 0) @ [RestartButton 0])) = 0 \<and>
   pipes (run (startGame (1/2) (Game_constructor 400 700)) (replicate 57 (Frame 0) @ [RestartButton 0]))
     = [Pipe_constructor 400 700 400 None 0]"
proof -
  let ?st = "startGame (1/2) (Game_constructor 400 700)"
  let ?over = "gameOver (cruising 680 0 (6347/20) False 57 0)"
  have s: "run ?st (replicate 57 (Frame 0)) = ?over"
    by (rule fall_57_frames)
  have r: "run ?st (replicate 57 (Frame 0) @ [RestartButton 0]) = startGame 0 ?over"
    by (simp only: run_snoc s handle.simps Menu_restartGame_def)
  have first: "pipes ?st = [Pipe_constructor 400 700 400 None (1/2)]"
    by (simp add: Game_constructor_def)
  have n: "noRestart ?st (replicate 57 (Frame 0))"
    by (rule noRestart_flights) simp
  have p: "pipes ?over = [(Pipe_constructor 400 700 400 None (1/2))\<lparr>pipe_x := 6347/20\<rparr>]"
    by (simp add: cruising_def Pipe_constructor_def Let_def)
  have np: "\<not> passed ((Pipe_constructor 400 700 400 None (1/2))\<lparr>pipe_x := 6347/20\<rparr>)"
    by simp
  have over: "isGameOver ?over" "score ?over = 0"
    by (simp_all add: cruising_def)
  have frozen: "update 0 ?over = ?over"
    by (rule update_idle) simp
  have again: "score (startGame 0 ?over) = 0"
    "pipes (startGame 0 ?over) = [Pipe_constructor 400 700 400 None 0]"
    by (simp_all add: cruising_def)
  have st: "starts ?over (RestartButton 0)"
    by simp
  show ?thesis
    unfolding r s using first n [unfolded s] p np over frozen again st by blast
qed

end
